theory Spec2Isabelle
  imports Complex_Main "HOL-Library.Multiset"
begin

section \<open>The budget planner component\<close>

text \<open>
  The component \<^verbatim>\<open>BudgetPlanner\<close> (file \<^verbatim>\<open>src/components/BudgetPlanner.tsx\<close>) keeps two
  pieces of state, \<^verbatim>\<open>income\<close> and \<^verbatim>\<open>expenses\<close>, derives four values from them on every
  render and exports them as a spreadsheet or as plain text.

  Modelling decisions.
  \<^item> An amount is a JavaScript number, a double-precision binary floating-point value:
    a rational that has this format, a negative zero, an infinity or \<^verbatim>\<open>NaN\<close>. Every
    arithmetic operation of the source rounds its exact result to the nearest such value.
  \<^item> The object \<^verbatim>\<open>expenses\<close> is an association list, in the order in which
    \<^verbatim>\<open>Object.entries\<close> and \<^verbatim>\<open>Object.values\<close> enumerate its keys.
  \<^item> The parameter \<^verbatim>\<open>category\<close> has the type \<^verbatim>\<open>keyof typeof expenses\<close>: it is one of six names.
  \<^item> \<^verbatim>\<open>toLocaleString()\<close> is called without a locale, so it formats with the locale of the
    host. The host's formatter is a parameter of the text export.
\<close>

subsection \<open>Numbers\<close>

text \<open>\<open>Finite 0\<close> is the positive zero; \<open>Finite x\<close> is meant for an \<open>x\<close> of the format.\<close>

datatype number = Finite rat | NegZero | PosInfinity | NegInfinity | NaN

fun value_of :: "number \<Rightarrow> rat" where
  "value_of (Finite x) = x"
| "value_of n = 0"

fun is_finite :: "number \<Rightarrow> bool" where
  "is_finite (Finite x) = True"
| "is_finite NegZero = True"
| "is_finite n = False"

fun is_zero :: "number \<Rightarrow> bool" where
  "is_zero (Finite x) = (x = 0)"
| "is_zero NegZero = True"
| "is_zero n = False"

fun is_infinite :: "number \<Rightarrow> bool" where
  "is_infinite PosInfinity = True"
| "is_infinite NegInfinity = True"
| "is_infinite n = False"

text \<open>The sign bit.\<close>

fun negative :: "number \<Rightarrow> bool" where
  "negative (Finite x) = (x < 0)"
| "negative NegZero = True"
| "negative NegInfinity = True"
| "negative n = False"

definition signed_zero :: "bool \<Rightarrow> number" where
  "signed_zero neg = (if neg then NegZero else Finite 0)"

definition signed_infinity :: "bool \<Rightarrow> number" where
  "signed_infinity neg = (if neg then NegInfinity else PosInfinity)"

text \<open>The number of binary digits of a positive integer.\<close>

function bit_length :: "int \<Rightarrow> int" where
  "bit_length n = (if n \<le> 0 then 0 else 1 + bit_length (n div 2))"
  by pat_completeness auto
termination
  by (relation "measure nat") auto

declare bit_length.simps [simp del]

text \<open>For a positive \<open>x\<close>, the exponent \<open>e\<close> with \<open>2^e \<le> x < 2^(e + 1)\<close>.\<close>

definition floor_log2 :: "rat \<Rightarrow> int" where
  "floor_log2 x =
     (let d = bit_length (fst (quotient_of x)) - bit_length (snd (quotient_of x))
      in if 2 powi d \<le> x then d else d - 1)"

text \<open>The nearest integer, the even one of two.\<close>

definition round_half_even :: "rat \<Rightarrow> int" where
  "round_half_even y =
     (let f = \<lfloor>y\<rfloor>; r = y - of_int f
      in if r < 1 / 2 then f else if 1 / 2 < r then f + 1 else if even f then f else f + 1)"

text \<open>
  Rounding to the format: 53 significant binary digits, the least exponent \<open>-1074\<close> for
  the last of them, and an infinity from \<open>2^1024\<close> on. A result that rounds to zero keeps
  its sign.
\<close>

definition round_to_double :: "rat \<Rightarrow> number" where
  "round_to_double x =
     (if x = 0 then Finite 0
      else let e = floor_log2 \<bar>x\<bar>;
               q = 2 powi (max (e - 52) (- 1074));
               m = round_half_even (\<bar>x\<bar> / q)
           in if 1024 \<le> e \<or> (e = 1023 \<and> m = 2 ^ 53) then signed_infinity (x < 0)
              else if m = 0 then signed_zero (x < 0)
              else Finite (if x < 0 then - (of_int m * q) else of_int m * q))"

text \<open>The operators \<^verbatim>\<open>+\<close>, unary and binary \<^verbatim>\<open>-\<close>, \<^verbatim>\<open>*\<close> and \<^verbatim>\<open>/\<close> on numbers.\<close>

definition js_plus :: "number \<Rightarrow> number \<Rightarrow> number" where
  "js_plus a b =
     (if a = NaN \<or> b = NaN then NaN
      else if is_infinite a \<and> is_infinite b \<and> a \<noteq> b then NaN
      else if is_infinite a then a
      else if is_infinite b then b
      else if is_zero a \<and> is_zero b then signed_zero (negative a \<and> negative b)
      else if is_zero a then b
      else if is_zero b then a
      else round_to_double (value_of a + value_of b))"

fun js_negate :: "number \<Rightarrow> number" where
  "js_negate (Finite x) = (if x = 0 then NegZero else Finite (- x))"
| "js_negate NegZero = Finite 0"
| "js_negate PosInfinity = NegInfinity"
| "js_negate NegInfinity = PosInfinity"
| "js_negate NaN = NaN"

definition js_minus :: "number \<Rightarrow> number \<Rightarrow> number" where
  "js_minus a b = js_plus a (js_negate b)"

definition js_times :: "number \<Rightarrow> number \<Rightarrow> number" where
  "js_times a b =
     (if a = NaN \<or> b = NaN then NaN
      else if (is_infinite a \<and> is_zero b) \<or> (is_zero a \<and> is_infinite b) then NaN
      else if is_infinite a \<or> is_infinite b then signed_infinity (negative a \<noteq> negative b)
      else if is_zero a \<or> is_zero b then signed_zero (negative a \<noteq> negative b)
      else round_to_double (value_of a * value_of b))"

definition js_divide :: "number \<Rightarrow> number \<Rightarrow> number" where
  "js_divide a b =
     (if a = NaN \<or> b = NaN then NaN
      else if (is_infinite a \<and> is_infinite b) \<or> (is_zero a \<and> is_zero b) then NaN
      else if is_infinite a \<or> is_zero b then signed_infinity (negative a \<noteq> negative b)
      else if is_zero a \<or> is_infinite b then signed_zero (negative a \<noteq> negative b)
      else round_to_double (value_of a / value_of b))"

text \<open>
  The comparisons \<^verbatim>\<open>a < b\<close> and \<^verbatim>\<open>a <= b\<close>: false when either side is \<^verbatim>\<open>NaN\<close>, and the
  two zeros are equal.
\<close>

definition js_less :: "number \<Rightarrow> number \<Rightarrow> bool" where
  "js_less a b =
     (if a = NaN \<or> b = NaN then False
      else if a = PosInfinity \<or> b = NegInfinity then False
      else if a = NegInfinity \<or> b = PosInfinity then True
      else value_of a < value_of b)"

definition js_le :: "number \<Rightarrow> number \<Rightarrow> bool" where
  "js_le a b =
     (if a = NaN \<or> b = NaN then False
      else if a = NegInfinity \<or> b = PosInfinity then True
      else if a = PosInfinity \<or> b = NegInfinity then False
      else value_of a \<le> value_of b)"

subsection \<open>State\<close>

record budget =
  income :: number
  expenses :: "(string \<times> number) list"

text \<open>The keys of the object type of \<^verbatim>\<open>expenses\<close>; \<^verbatim>\<open>keyof typeof expenses\<close> is their union.\<close>

datatype category = housing | transportation | food | utilities | entertainment | other

fun category_name :: "category \<Rightarrow> string" where
  "category_name housing = ''housing''"
| "category_name transportation = ''transportation''"
| "category_name food = ''food''"
| "category_name utilities = ''utilities''"
| "category_name entertainment = ''entertainment''"
| "category_name other = ''other''"

text \<open>The six keys in declaration order.\<close>

definition category_keys :: "string list" where
  "category_keys =
     [''housing'', ''transportation'', ''food'', ''utilities'', ''entertainment'', ''other'']"

text \<open>The arguments of the two \<^verbatim>\<open>useState\<close> calls.\<close>

definition initial_expenses :: "(string \<times> number) list" where
  "initial_expenses =
     [(''housing'', Finite 1500), (''transportation'', Finite 400), (''food'', Finite 600),
      (''utilities'', Finite 300), (''entertainment'', Finite 200), (''other'', Finite 300)]"

definition initial_budget :: budget where
  "initial_budget = \<lparr>income = Finite 5000, expenses = initial_expenses\<rparr>"

text \<open>
  An object literal \<^verbatim>\<open>{...prev, [category]: value}\<close>: the properties of \<^verbatim>\<open>prev\<close> are copied
  in order, then \<^verbatim>\<open>category\<close> is assigned. Assigning an existing key keeps its place; a
  key that \<^verbatim>\<open>prev\<close> lacks is created behind the others, none of the six names being an
  array index.
\<close>

primrec spread_with :: "(string \<times> number) list \<Rightarrow> string \<Rightarrow> number \<Rightarrow> (string \<times> number) list" where
  "spread_with [] key v = [(key, v)]"
| "spread_with (p # prev) key v =
     (if fst p = key then (key, v) # prev else p # spread_with prev key v)"

definition handleExpenseChange :: "category \<Rightarrow> number \<Rightarrow> 'a budget_scheme \<Rightarrow> 'a budget_scheme" where
  "handleExpenseChange category v st =
     st\<lparr>expenses := spread_with (expenses st) (category_name category) v\<rparr>"

text \<open>The value stored under a key, \<^verbatim>\<open>expenses[key]\<close>; \<open>None\<close> is \<^verbatim>\<open>undefined\<close>.\<close>

definition entry :: "'a budget_scheme \<Rightarrow> string \<Rightarrow> number option" where
  "entry st key = map_of (expenses st) key"

text \<open>The state has the shape its type declares: the six keys, in declaration order.\<close>

definition six_keys :: "'a budget_scheme \<Rightarrow> bool" where
  "six_keys st = (map fst (expenses st) = category_keys)"

subsection \<open>Derived values\<close>

definition totalExpenses :: "'a budget_scheme \<Rightarrow> number" where
  "totalExpenses st =
     foldl (\<lambda>sum expense. js_plus sum expense) (Finite 0) (map snd (expenses st))"

definition savings :: "'a budget_scheme \<Rightarrow> number" where
  "savings st = js_minus (income st) (totalExpenses st)"

definition savingsPercentage :: "'a budget_scheme \<Rightarrow> number" where
  "savingsPercentage st = js_times (js_divide (savings st) (income st)) (Finite 100)"

definition exceed_message :: string where
  "exceed_message =
     ''Your expenses exceed your income. Consider cutting back on non-essential spending.''"

definition less_than_10_message :: string where
  "less_than_10_message =
     ''You're saving less than 10% of your income. Financial experts recommend saving at least 20%.''"

definition aim_for_20_message :: string where
  "aim_for_20_message =
     ''You're saving a good amount, but aim for 20% to build a strong financial foundation.''"

definition great_job_message :: string where
  "great_job_message =
     ''Great job! You're saving more than 20% of your income, which is excellent for long-term financial health.''"

definition recommendation :: "'a budget_scheme \<Rightarrow> string" where
  "recommendation st =
     (if js_less (savingsPercentage st) (Finite 0) then exceed_message
      else if js_less (savingsPercentage st) (Finite 10) then less_than_10_message
      else if js_less (savingsPercentage st) (Finite 20) then aim_for_20_message
      else great_job_message)"

text \<open>
  \<^verbatim>\<open>name.charAt(0).toUpperCase() + name.slice(1)\<close>. The keys are ASCII, where
  \<^verbatim>\<open>toUpperCase\<close> maps the 26 lower-case letters and nothing else.
\<close>

definition toUpperCase_char :: "char \<Rightarrow> char" where
  "toUpperCase_char c =
     (case map_of (zip ''abcdefghijklmnopqrstuvwxyz'' ''ABCDEFGHIJKLMNOPQRSTUVWXYZ'') c of
        Some u \<Rightarrow> u
      | None \<Rightarrow> c)"

definition capitalized :: "string \<Rightarrow> string" where
  "capitalized name = map toUpperCase_char (take 1 name) @ drop 1 name"

definition chartData :: "'a budget_scheme \<Rightarrow> (string \<times> number) list" where
  "chartData st = map (\<lambda>(name, v). (capitalized name, v)) (expenses st)"

subsection \<open>Number formatting\<close>

text \<open>The decimal digits of a natural number, most significant first.\<close>

definition digit_char :: "int \<Rightarrow> char" where
  "digit_char d = ''0123456789'' ! nat d"

function digits_of :: "int \<Rightarrow> string" where
  "digits_of n =
     (if n < 10 then [digit_char n] else digits_of (n div 10) @ [digit_char (n mod 10)])"
  by pat_completeness auto
termination
  by (relation "measure nat") auto

declare digits_of.simps [simp del]

text \<open>
  \<^verbatim>\<open>x.toString()\<close> for a finite \<open>x \<ge> 10^21\<close>, which is a whole number: the shortest
  decimal numeral that rounds to \<open>x\<close>, the nearest to \<open>x\<close> among those, in exponent
  notation. With \<open>k\<close> significant digits the two candidates are the multiples of
  \<open>10^(n - k)\<close> next to \<open>x\<close>, where \<open>n\<close> is the number of digits of \<open>x\<close>; seventeen
  digits always suffice.
\<close>

definition candidates :: "rat \<Rightarrow> nat \<Rightarrow> nat \<Rightarrow> rat list" where
  "candidates x n k =
     (let scale = 10 ^ (n - k);
          s = \<lfloor>x / scale\<rfloor>;
          below = of_int s * scale;
          above = below + scale
      in if x - below < above - x \<or> (x - below = above - x \<and> even s)
         then [below, above] else [above, below])"

primrec shortest :: "rat \<Rightarrow> nat \<Rightarrow> nat list \<Rightarrow> rat" where
  "shortest x n [] = x"
| "shortest x n (k # ks) =
     (case filter (\<lambda>c. round_to_double c = Finite x) (candidates x n k) of
        c # cs \<Rightarrow> c
      | [] \<Rightarrow> shortest x n ks)"

definition toString_exponential :: "rat \<Rightarrow> string" where
  "toString_exponential x =
     (let c = shortest x (length (digits_of \<lfloor>x\<rfloor>)) [1 ..< 18];
          ds = digits_of \<lfloor>c\<rfloor>;
          significant = rev (dropWhile (\<lambda>d. d = CHR ''0'') (rev ds))
      in (if length significant = 1 then significant
          else hd significant # ''.'' @ tl significant)
         @ ''e+'' @ digits_of (int (length ds) - 1))"

text \<open>
  \<^verbatim>\<open>x.toFixed(f)\<close>, after the steps of the language standard: a value that is not finite
  is printed by name; otherwise the sign is split off; from \<open>10^21\<close> on the result is that
  of \<^verbatim>\<open>toString\<close>; below, \<open>n\<close> is the integer nearest to \<open>x * 10^f\<close> (the larger one of
  two), its digits are padded with zeros to \<open>f + 1\<close> places and the point is set before the
  last \<open>f\<close> of them.
\<close>

definition fixed_point :: "rat \<Rightarrow> nat \<Rightarrow> string" where
  "fixed_point x f =
     (let n = \<lfloor>x * 10 ^ f + 1 / 2\<rfloor>;
          m = digits_of n;
          m = (if length m \<le> f then replicate (f + 1 - length m) CHR ''0'' @ m else m);
          k = length m
      in if f = 0 then m else take (k - f) m @ ''.'' @ drop (k - f) m)"

fun toFixed :: "number \<Rightarrow> nat \<Rightarrow> string" where
  "toFixed NaN f = ''NaN''"
| "toFixed PosInfinity f = ''Infinity''"
| "toFixed NegInfinity f = ''-Infinity''"
| "toFixed NegZero f = fixed_point 0 f"
| "toFixed (Finite x) f =
     (if x < 0 then ''-'' else [])
     @ (if 10 ^ 21 \<le> \<bar>x\<bar> then toString_exponential \<bar>x\<bar> else fixed_point \<bar>x\<bar> f)"

text \<open>
  \<^verbatim>\<open>n.toLocaleString()\<close> in a locale that groups the integer digits in threes and shows at
  most three fraction digits, rounded half away from zero, as the internationalisation
  standard has it: \<open>en_US\<close> groups with a comma and sets a point before the fraction,
  \<open>de_DE\<close> the other way round. An infinity is printed as the sign of that name, in
  UTF-8.
\<close>

fun group_thousands :: "string \<Rightarrow> string \<Rightarrow> string" where
  "group_thousands sep ds =
     (if length ds \<le> 3 then ds
      else group_thousands sep (take (length ds - 3) ds) @ sep @ drop (length ds - 3) ds)"

declare group_thousands.simps [simp del]

definition fraction_digits :: "int \<Rightarrow> string" where
  "fraction_digits n =
     (let ds = digits_of n;
          ds = replicate (3 - length ds) CHR ''0'' @ ds
      in rev (dropWhile (\<lambda>d. d = CHR ''0'') (rev ds)))"

definition infinity_sign :: string where
  "infinity_sign = [CHR 0xE2, CHR 0x88, CHR 0x9E]"

fun grouped :: "string \<Rightarrow> string \<Rightarrow> number \<Rightarrow> string" where
  "grouped sep point NaN = ''NaN''"
| "grouped sep point PosInfinity = infinity_sign"
| "grouped sep point NegInfinity = ''-'' @ infinity_sign"
| "grouped sep point NegZero = ''-0''"
| "grouped sep point (Finite x) =
     (let n = \<lfloor>\<bar>x\<bar> * 1000 + 1 / 2\<rfloor>;
          fraction = fraction_digits (n mod 1000)
      in (if x < 0 then ''-'' else [])
         @ group_thousands sep (digits_of (n div 1000))
         @ (if fraction = [] then [] else point @ fraction))"

definition en_US :: "number \<Rightarrow> string" where
  "en_US = grouped '','' ''.''"

definition de_DE :: "number \<Rightarrow> string" where
  "de_DE = grouped ''.'' '',''"

text \<open>\<^verbatim>\<open>lines.join(sep)\<close>.\<close>

fun join :: "string \<Rightarrow> string list \<Rightarrow> string" where
  "join sep [] = []"
| "join sep [l] = l"
| "join sep (l # l' # ls) = l @ sep @ join sep (l' # ls)"

subsection \<open>Exports\<close>

text \<open>
  The template literal of \<^verbatim>\<open>downloadAsTxt\<close>. It opens with a line break, the one after the
  back quote, and closes with the one before the closing back quote.
\<close>

definition budgetText :: "(number \<Rightarrow> string) \<Rightarrow> 'a budget_scheme \<Rightarrow> string" where
  "budgetText toLocaleString st =
     ''\<newline>BUDGET SUMMARY\<newline>==============\<newline>\<newline>Income: $''
     @ toLocaleString (income st)
     @ ''\<newline>\<newline>EXPENSES:\<newline>''
     @ join ''\<newline>''
         (map (\<lambda>(category, amount). capitalized category @ '': $'' @ toLocaleString amount)
            (expenses st))
     @ ''\<newline>\<newline>Total Expenses: $'' @ toLocaleString (totalExpenses st)
     @ ''\<newline>Savings: $'' @ toLocaleString (savings st)
     @ ''\<newline>Savings Percentage: '' @ toFixed (savingsPercentage st) 2
     @ ''%\<newline>\<newline>Recommendation: '' @ recommendation st
     @ ''\<newline>''"

text \<open>The value of a property of a row object: a number or a string.\<close>

datatype js_value = Num number | Str string

text \<open>The array of row objects passed to \<^verbatim>\<open>XLSX.utils.json_to_sheet\<close>.\<close>

definition excel_rows :: "'a budget_scheme \<Rightarrow> (string \<times> js_value) list list" where
  "excel_rows st =
     [(''Category'', Str ''Income''), (''Amount'', Num (income st))]
     # map (\<lambda>(category, amount).
              [(''Category'', Str (capitalized category)), (''Amount'', Num amount)])
         (expenses st)
     @ [[(''Category'', Str ''Total Expenses''), (''Amount'', Num (totalExpenses st))],
        [(''Category'', Str ''Savings''), (''Amount'', Num (savings st))],
        [(''Category'', Str ''Savings Percentage''),
         (''Amount'', Str (toFixed (savingsPercentage st) 2 @ ''%''))]]"

text \<open>
  The library call \<^verbatim>\<open>json_to_sheet\<close>: the header row holds the keys of the objects in the
  order of their first appearance, and every object becomes one row with its values
  under the header's keys. A string value becomes a text cell, a number a numeric cell.
\<close>

record worksheet =
  header :: "string list"
  cells :: "js_value option list list"

definition json_to_sheet :: "(string \<times> js_value) list list \<Rightarrow> worksheet" where
  "json_to_sheet objs =
     (let hdr = rev (remdups (rev (concat (map (map fst) objs))))
      in \<lparr>header = hdr, cells = map (\<lambda>obj. map (map_of obj) hdr) objs\<rparr>)"

type_synonym workbook = "(string \<times> worksheet) list"

definition book_new :: workbook where
  "book_new = []"

definition book_append_sheet :: "workbook \<Rightarrow> worksheet \<Rightarrow> string \<Rightarrow> workbook" where
  "book_append_sheet wb ws name = wb @ [(name, ws)]"

text \<open>
  What an export leaves behind: a file offered for download under a name, and a toast
  with a title and a description. The component's state and these two logs make up the
  page; creating the anchor element, clicking and removing it is the download.
\<close>

datatype content = Workbook workbook | Blob string string

record page = budget +
  downloads :: "(string \<times> content) list"
  toasts :: "(string \<times> string) list"

definition downloadAsExcel :: "page \<Rightarrow> page" where
  "downloadAsExcel pg =
     (let worksheet = json_to_sheet (excel_rows pg);
          workbook = book_append_sheet book_new worksheet ''Budget Summary''
      in pg\<lparr>downloads := downloads pg @ [(''my_budget_plan.xlsx'', Workbook workbook)],
            toasts := toasts pg
              @ [(''Budget Downloaded'', ''Your budget has been saved as an Excel file'')]\<rparr>)"

definition downloadAsTxt :: "(number \<Rightarrow> string) \<Rightarrow> page \<Rightarrow> page" where
  "downloadAsTxt toLocaleString pg =
     (let blob = Blob (budgetText toLocaleString pg) ''text/plain''
      in pg\<lparr>downloads := downloads pg @ [(''my_budget_plan.txt'', blob)],
            toasts := toasts pg
              @ [(''Budget Downloaded'', ''Your budget has been saved as a text file'')]\<rparr>)"

subsection \<open>Vocabulary of the properties\<close>

definition starts_with :: "string \<Rightarrow> string \<Rightarrow> bool" where
  "starts_with p s = (take (length p) s = p)"

definition is_digit :: "char \<Rightarrow> bool" where
  "is_digit c = (c \<in> set ''0123456789'')"

text \<open>
  A percentage with exactly two decimals: an optional minus sign, one or more digits, a
  point, two digits and the percent sign. The string is read from its end.
\<close>

definition two_decimal_percent :: "string \<Rightarrow> bool" where
  "two_decimal_percent s =
     (case rev s of
        pc # d2 # d1 # pt # ip \<Rightarrow>
          pc = CHR ''%'' \<and> is_digit d2 \<and> is_digit d1 \<and> pt = CHR ''.''
          \<and> (let ds = (if ip \<noteq> [] \<and> last ip = CHR ''-'' then butlast ip else ip)
             in ds \<noteq> [] \<and> list_all is_digit ds)
      | _ \<Rightarrow> False)"

text \<open>The object with the six keys in declaration order and the given values.\<close>

definition six_entries ::
  "number \<Rightarrow> number \<Rightarrow> number \<Rightarrow> number \<Rightarrow> number \<Rightarrow> number \<Rightarrow> (string \<times> number) list" where
  "six_entries ho tr fo ut en ot = zip category_keys [ho, tr, fo, ut, en, ot]"

text \<open>A state of the declared shape, and the page as it is before any export.\<close>

definition budget_of ::
  "number \<Rightarrow> number \<Rightarrow> number \<Rightarrow> number \<Rightarrow> number \<Rightarrow> number \<Rightarrow> number \<Rightarrow> budget" where
  "budget_of i ho tr fo ut en ot = \<lparr>income = i, expenses = six_entries ho tr fo ut en ot\<rparr>"

definition page_of :: "number \<Rightarrow> (string \<times> number) list \<Rightarrow> page" where
  "page_of i es = \<lparr>income = i, expenses = es, downloads = [], toasts = []\<rparr>"

text \<open>
  \<^verbatim>\<open>Number(text)\<close> for a decimal numeral: the double nearest to the number it denotes.
\<close>

definition Number_of :: "rat \<Rightarrow> number" where
  "Number_of r = round_to_double r"

text \<open>
  A state whose amounts are whole numbers, none of them a negative zero, that add up in
  magnitude to no more than \<open>2^53\<close>, where the doubles stop holding every integer.
\<close>

definition whole :: "number \<Rightarrow> bool" where
  "whole n = (case n of Finite x \<Rightarrow> x = of_int \<lfloor>x\<rfloor> | _ \<Rightarrow> False)"

definition whole_expenses :: "'a budget_scheme \<Rightarrow> bool" where
  "whole_expenses st =
     (list_all whole (map snd (expenses st))
      \<and> sum_list (map (\<lambda>v. \<bar>value_of v\<bar>) (map snd (expenses st))) \<le> 2 ^ 53)"

definition whole_amounts :: "'a budget_scheme \<Rightarrow> bool" where
  "whole_amounts st =
     (whole (income st) \<and> list_all whole (map snd (expenses st))
      \<and> \<bar>value_of (income st)\<bar>
          + sum_list (map (\<lambda>v. \<bar>value_of v\<bar>) (map snd (expenses st))) \<le> 2 ^ 53)"

text \<open>Four states, one for each tier of the recommendation.\<close>

definition deficit_budget :: budget where
  "deficit_budget =
     budget_of (Finite 2000) (Finite 2500) (Finite 0) (Finite 0) (Finite 0) (Finite 0) (Finite 0)"

definition five_percent_budget :: budget where
  "five_percent_budget =
     budget_of (Finite 1000) (Finite 500) (Finite 200) (Finite 100) (Finite 50) (Finite 50)
       (Finite 50)"

definition ten_percent_budget :: budget where
  "ten_percent_budget =
     budget_of (Finite 1000) (Finite 900) (Finite 0) (Finite 0) (Finite 0) (Finite 0) (Finite 0)"

definition twenty_percent_budget :: budget where
  "twenty_percent_budget =
     budget_of (Finite 1000) (Finite 800) (Finite 0) (Finite 0) (Finite 0) (Finite 0) (Finite 0)"



definition fraction_income_budget :: budget where
  "fraction_income_budget =
     budget_of (Number_of (50005 / 10)) (Number_of (1 / 10)) (Finite 0) (Finite 0)
       (Finite 0) (Finite 0) (Finite 0)"

definition quarter_budget :: budget where
  "quarter_budget =
     budget_of (Finite 8000) (Finite 4000) (Finite 400) (Finite 600) (Finite 300) (Finite 200)
       (Finite 450)"

text \<open>
  Pages before any export: the initial state; the income field emptied; an expense of
  \<open>10^22\<close>, far beyond the bounds of the input fields; the state of \<open>quarter_budget\<close>.
\<close>

definition initial_page :: page where
  "initial_page = page_of (Finite 5000) initial_expenses"

definition no_income_page :: page where
  "no_income_page = page_of (Finite 0) initial_expenses"

definition huge_expense_page :: page where
  "huge_expense_page =
     page_of (Finite 1000)
       (six_entries (Finite (10 ^ 22)) (Finite 0) (Finite 0) (Finite 0) (Finite 0) (Finite 0))"

definition quarter_page :: page where
  "quarter_page = page_of (Finite 8000) (expenses quarter_budget)"

section \<open>Auxiliary facts\<close>

subsection \<open>Rounding to the format\<close>

lemma bit_length_nonneg: "0 \<le> bit_length n"
proof (induction n rule: bit_length.induct)
  case (1 n)
  show ?case
  proof (cases "n \<le> 0")
    case True
    then show ?thesis by (simp add: bit_length.simps [of n])
  next
    case False
    with "1.IH" have "0 \<le> bit_length (n div 2)" by simp
    with False show ?thesis by (simp add: bit_length.simps [of n])
  qed
qed

lemma bit_length_one: "bit_length 1 = 1"
  by (simp add: bit_length.simps [of 1] bit_length.simps [of 0])

lemma powi_two_of_int: "0 \<le> b \<Longrightarrow> (2::rat) powi b = of_int (2 ^ nat b)"
  by (simp add: power_int_def)

lemma bit_length_bounds:
  "0 < n \<Longrightarrow> (2::rat) powi (bit_length n - 1) \<le> of_int n \<and> of_int n < (2::rat) powi (bit_length n)"
proof (induction n rule: bit_length.induct)
  case (1 n)
  show ?case
  proof (cases "n = 1")
    case True
    then show ?thesis by (simp add: bit_length_one)
  next
    case False
    with "1.prems" have pos: "0 < n div 2" by simp
    define b where "b = bit_length (n div 2)"
    have b0: "0 \<le> b" unfolding b_def by (rule bit_length_nonneg)
    have bn: "bit_length n = b + 1"
      using "1.prems" by (simp add: bit_length.simps [of n] b_def)
    from "1.IH" pos "1.prems" have ih: "(2::rat) powi (b - 1) \<le> of_int (n div 2)"
      "of_int (n div 2) < (2::rat) powi b"
      by (simp_all add: b_def)
    have step: "(2::rat) powi b = 2 * 2 powi (b - 1)" "(2::rat) powi (b + 1) = 2 * 2 powi b"
      by (simp_all add: power_int_diff power_int_add)
    have "2 * (n div 2) \<le> n" by simp
    then have "(of_int (2 * (n div 2)) :: rat) \<le> of_int n"
      by (simp only: of_int_le_iff)
    then have lo: "2 * (of_int (n div 2) :: rat) \<le> of_int n"
      by simp
    have "(of_int (n div 2) :: rat) < of_int (2 ^ nat b)"
      using ih(2) by (simp only: powi_two_of_int [OF b0])
    then have "n div 2 < 2 ^ nat b"
      by (simp only: of_int_less_iff)
    then have "n < 2 * 2 ^ nat b" by simp
    then have "(of_int n :: rat) < of_int (2 * 2 ^ nat b)"
      by (simp only: of_int_less_iff)
    then have hi: "(of_int n :: rat) < 2 * 2 powi b"
      by (simp add: powi_two_of_int [OF b0])
    have "(2::rat) powi b \<le> of_int n"
      using lo ih(1) step(1) by simp
    moreover have "(of_int n :: rat) < 2 powi (b + 1)"
      using hi step(2) by simp
    ultimately show ?thesis
      unfolding bn by simp
  qed
qed

lemma floor_log2_bounds:
  assumes "0 < x"
  shows "2 powi (floor_log2 x) \<le> x \<and> x < 2 powi (floor_log2 x + 1)"
proof -
  define p where "p = fst (quotient_of x)"
  define q where "q = snd (quotient_of x)"
  define d where "d = bit_length p - bit_length q"
  have qpos: "0 < q" unfolding q_def by (rule quotient_of_denom_pos')
  have x: "x = of_int p / of_int q"
    by (rule quotient_of_div) (simp add: p_def q_def)
  have ppos: "0 < p"
  proof (rule ccontr)
    assume "\<not> 0 < p"
    then have "(of_int p :: rat) \<le> 0" by simp
    then have "x \<le> 0" unfolding x using qpos by (simp add: divide_le_0_iff)
    with assms show False by simp
  qed
  note bp = bit_length_bounds [OF ppos]
  note bq = bit_length_bounds [OF qpos]
  have qr: "0 < (of_int q :: rat)" using qpos by simp
  have splitd: "(2::rat) powi (d + 1) = 2 powi (bit_length p) / 2 powi (bit_length q - 1)"
    "(2::rat) powi (d - 1) = 2 powi (bit_length p - 1) / 2 powi (bit_length q)"
    by (simp_all add: d_def power_int_diff power_int_add field_simps)
  have up: "x < 2 powi (d + 1)"
  proof -
    have "of_int p / of_int q < 2 powi (bit_length p) / (of_int q :: rat)"
      using bp qr by (simp add: divide_strict_right_mono)
    also have "\<dots> \<le> 2 powi (bit_length p) / 2 powi (bit_length q - 1)"
      using bq qr by (intro divide_left_mono) simp_all
    finally show ?thesis unfolding x splitd .
  qed
  have low: "2 powi (d - 1) < x"
  proof -
    have "(2::rat) powi (bit_length p - 1) / 2 powi (bit_length q) < 2 powi (bit_length p - 1) / of_int q"
      using bq qr by (intro divide_strict_left_mono) simp_all
    also have "\<dots> \<le> of_int p / of_int q"
      using bp qr by (simp add: divide_right_mono)
    finally show ?thesis unfolding x splitd .
  qed
  have e: "floor_log2 x = (if 2 powi d \<le> x then d else d - 1)"
    by (simp add: floor_log2_def d_def p_def q_def)
  show ?thesis
  proof (cases "2 powi d \<le> x")
    case True
    with e up show ?thesis by simp
  next
    case False
    with e low show ?thesis by simp
  qed
qed

lemma round_half_even_error: "\<bar>of_int (round_half_even y) - y\<bar> \<le> 1 / 2"
proof -
  define f where "f = \<lfloor>y\<rfloor>"
  have "of_int f \<le> y" "y < of_int f + 1"
    unfolding f_def by linarith+
  then show ?thesis
    unfolding round_half_even_def f_def [symmetric] Let_def
    by (auto simp: abs_if)
qed

lemma round_half_even_of_int: "round_half_even (of_int k) = k"
  by (simp add: round_half_even_def)

lemma powi_two_split:
  "(2::rat) powi e = 2 powi (e - 52) * 2 ^ 52"
  "(2::rat) powi (e + 1) = 2 powi (e - 52) * 2 ^ 53"
proof -
  have a: "e = (e - 52) + 52" and b: "e + 1 = (e - 52) + 53" by simp_all
  have "(2::rat) powi ((e - 52) + 52) = 2 powi (e - 52) * 2 powi 52"
    by (rule power_int_add) simp
  then show "(2::rat) powi e = 2 powi (e - 52) * 2 ^ 52"
    using a by simp
  have "(2::rat) powi ((e - 52) + 53) = 2 powi (e - 52) * 2 powi 53"
    by (rule power_int_add) simp
  then show "(2::rat) powi (e + 1) = 2 powi (e - 52) * 2 ^ 53"
    unfolding b [symmetric] by simp
qed

lemma powi_two_less_imp: "(2::rat) powi a < 2 powi b \<Longrightarrow> a < b"
proof (rule ccontr)
  assume less: "(2::rat) powi a < 2 powi b" and "\<not> a < b"
  then have "b \<le> a" by simp
  then have "(2::rat) powi b \<le> 2 powi a"
    by (rule power_int_increasing) simp
  with less show False by simp
qed

text \<open>The exponent of a value between two powers of two.\<close>

lemma floor_log2_range:
  assumes "2 powi lo \<le> x" and "x \<le> 2 powi hi"
  shows "lo \<le> floor_log2 x \<and> floor_log2 x \<le> hi"
proof -
  have pos: "0 < x"
    using assms(1) by (rule less_le_trans [rotated]) simp
  note b = floor_log2_bounds [OF pos]
  have "(2::rat) powi lo < 2 powi (floor_log2 x + 1)"
    using assms(1) b by simp
  then have "lo < floor_log2 x + 1" by (rule powi_two_less_imp)
  moreover have "(2::rat) powi (floor_log2 x) < 2 powi (hi + 1)"
  proof -
    have "(2::rat) powi hi < 2 powi (hi + 1)"
      by (rule power_int_strict_increasing) simp_all
    with assms(2) b show ?thesis by simp
  qed
  then have "floor_log2 x < hi + 1" by (rule powi_two_less_imp)
  ultimately show ?thesis by simp
qed

lemma round_to_double_eq:
  assumes "x \<noteq> 0" and "floor_log2 \<bar>x\<bar> = e" and "max (e - 52) (- 1074) = qe"
    and "round_half_even (\<bar>x\<bar> / 2 powi qe) = m"
    and "\<not> (1024 \<le> e \<or> (e = 1023 \<and> m = 2 ^ 53))" and "m \<noteq> 0"
  shows "round_to_double x
    = Finite (if x < 0 then - (of_int m * 2 powi qe) else of_int m * 2 powi qe)"
  unfolding round_to_double_def Let_def
  by (simp only: assms if_False)

lemma round_to_double_normal:
  assumes lo: "2 powi (- 1022) \<le> \<bar>x\<bar>" and hi: "\<bar>x\<bar> \<le> 2 powi 1023"
  shows "\<exists>y. round_to_double x = Finite y \<and> \<bar>y - x\<bar> \<le> \<bar>x\<bar> / 2 ^ 53 \<and> y \<noteq> 0"
proof -
  define e where "e = floor_log2 \<bar>x\<bar>"
  define q :: rat where "q = 2 powi (e - 52)"
  define t where "t = \<bar>x\<bar> / q"
  define m where "m = round_half_even t"
  have pos: "0 < \<bar>x\<bar>"
    using lo by (rule less_le_trans [rotated]) simp
  then have x0: "x \<noteq> 0" by simp
  have er: "- 1022 \<le> e" "e \<le> 1023"
    using floor_log2_range [OF lo hi] by (simp_all add: e_def)
  have qpos: "0 < q" by (simp add: q_def)
  have b: "q * 2 ^ 52 \<le> \<bar>x\<bar>" "\<bar>x\<bar> < q * 2 ^ 53"
    using floor_log2_bounds [OF pos] powi_two_split [of e]
    by (simp_all add: e_def [symmetric] q_def)
  have t: "2 ^ 52 \<le> t" "t < 2 ^ 53"
    using b qpos by (simp_all add: t_def field_simps)
  have err: "\<bar>of_int m - t\<bar> \<le> 1 / 2"
    unfolding m_def by (rule round_half_even_error)
  have m52: "2 ^ 52 \<le> m"
  proof (rule ccontr)
    assume "\<not> 2 ^ 52 \<le> m"
    then have "m \<le> 2 ^ 52 - 1" by simp
    then have "(of_int m :: rat) \<le> of_int (2 ^ 52 - 1)" by (simp only: of_int_le_iff)
    then have "(of_int m :: rat) \<le> 2 ^ 52 - 1" by simp
    with err t(1) show False by (simp add: abs_le_iff)
  qed
  then have m0: "m \<noteq> 0" "0 < m" by simp_all
  have no_overflow: "\<not> (1024 \<le> e \<or> (e = 1023 \<and> m = 2 ^ 53))"
  proof -
    have "m \<noteq> 2 ^ 53" if "e = 1023"
    proof -
      have "\<bar>x\<bar> \<le> q * 2 ^ 52"
        using hi powi_two_split(1) [of e] that by (simp add: q_def)
      with b(1) have "\<bar>x\<bar> = q * 2 ^ 52" by simp
      then have "t = of_int (2 ^ 52)"
        using qpos by (simp add: t_def)
      then have "m = 2 ^ 52"
        unfolding m_def by (simp only: round_half_even_of_int)
      then show ?thesis by simp
    qed
    with er show ?thesis by auto
  qed
  have qe: "max (e - 52) (- 1074) = e - 52"
    using er by simp
  define y where "y = (if x < 0 then - (of_int m * q) else of_int m * q)"
  have res: "round_to_double x = Finite y"
    unfolding y_def q_def
    by (rule round_to_double_eq [OF x0 _ qe _ no_overflow m0(1)])
      (simp_all only: e_def m_def t_def q_def)
  have "\<bar>of_int m * q - \<bar>x\<bar>\<bar> = q * \<bar>of_int m - t\<bar>"
  proof -
    have "of_int m * q - \<bar>x\<bar> = q * (of_int m - t)"
      using qpos by (simp add: t_def field_simps)
    then show ?thesis using qpos by (simp add: abs_mult)
  qed
  also have "\<dots> \<le> q * (1 / 2)"
    using err qpos by (intro mult_left_mono) simp_all
  also have "\<dots> \<le> \<bar>x\<bar> / 2 ^ 53"
    using b(1) by (simp add: field_simps)
  finally have mag: "\<bar>of_int m * q - \<bar>x\<bar>\<bar> \<le> \<bar>x\<bar> / 2 ^ 53" .
  have "\<bar>y - x\<bar> = \<bar>of_int m * q - \<bar>x\<bar>\<bar>"
  proof (cases "x < 0")
    case True
    then have "y - x = - (of_int m * q - \<bar>x\<bar>)" by (simp add: y_def)
    then show ?thesis by (simp only: abs_minus_cancel)
  next
    case False
    then show ?thesis by (simp add: y_def)
  qed
  with mag have "\<bar>y - x\<bar> \<le> \<bar>x\<bar> / 2 ^ 53" by simp
  moreover have "y \<noteq> 0"
    using m0 qpos by (simp add: y_def)
  ultimately show ?thesis using res by blast
qed

lemma round_to_double_of_int:
  assumes "\<bar>n\<bar> \<le> 2 ^ 53"
  shows "round_to_double (of_int n) = Finite (of_int n)"
proof (cases "n = 0")
  case True
  then show ?thesis by (simp add: round_to_double_def)
next
  case False
  define x :: rat where "x = of_int n"
  define e where "e = floor_log2 \<bar>x\<bar>"
  define q :: rat where "q = 2 powi (e - 52)"
  have ax: "\<bar>x\<bar> = of_int \<bar>n\<bar>" by (simp add: x_def)
  have x0: "x \<noteq> 0" using False by (simp add: x_def)
  have "1 \<le> \<bar>n\<bar>" using False by simp
  then have "(of_int 1 :: rat) \<le> of_int \<bar>n\<bar>" by (simp only: of_int_le_iff)
  then have lo: "2 powi 0 \<le> \<bar>x\<bar>" by (simp add: ax)
  have "(of_int \<bar>n\<bar> :: rat) \<le> of_int (2 ^ 53)" using assms by (simp only: of_int_le_iff)
  then have hi: "\<bar>x\<bar> \<le> 2 powi 53" by (simp add: ax)
  have er: "0 \<le> e" "e \<le> 53"
    using floor_log2_range [OF lo hi] by (simp_all add: e_def)
  have pos: "0 < \<bar>x\<bar>" using x0 by simp
  have qpos: "0 < q" by (simp add: q_def)
  have qe: "max (e - 52) (- 1074) = e - 52" using er by simp
  have "\<exists>k. \<bar>x\<bar> / q = of_int k \<and> k \<noteq> 0 \<and> (e = 1023 \<longrightarrow> k \<noteq> 2 ^ 53)"
  proof (cases "e = 53")
    case True
    have b1: "q * 2 ^ 52 \<le> \<bar>x\<bar>"
      using floor_log2_bounds [OF pos] powi_two_split(1) [of e]
      by (simp only: e_def [symmetric] q_def)
    have q2: "q = 2" unfolding q_def True by simp
    have "2 * 2 ^ 52 \<le> \<bar>x\<bar>" using b1 unfolding q2 .
    moreover have "\<bar>x\<bar> \<le> 2 ^ 53" using hi by simp
    ultimately have "\<bar>x\<bar> = 2 ^ 53" by simp
    then have "\<bar>x\<bar> / q = of_int (2 ^ 52) \<and> (2 ^ 52 :: int) \<noteq> 0
        \<and> (e = 1023 \<longrightarrow> (2 ^ 52 :: int) \<noteq> 2 ^ 53)"
      unfolding q2 by simp
    then show ?thesis by (rule exI)
  next
    case False
    with er have le: "e \<le> 52" by simp
    define P :: rat where "P = 2 ^ nat (52 - e)"
    have pw: "(2::rat) powi (52 - e) = P"
      unfolding P_def using le by (simp add: power_int_nonneg_exp)
    have "q * P = 2 powi (e - 52) * 2 powi (52 - e)"
      by (simp only: q_def pw)
    also have "\<dots> = 2 powi ((e - 52) + (52 - e))"
      by (rule power_int_add [symmetric]) simp
    also have "\<dots> = 1" by simp
    finally have qP: "q * P = 1" .
    have "P * q = 1" using qP by (simp only: mult.commute [of P q])
    have Pq: "P * q = 1" by fact
    have q0: "q \<noteq> 0" using qpos by simp
    have "P = 1 / q"
      unfolding nonzero_eq_divide_eq [OF q0] by (fact Pq)
    then have "\<bar>x\<bar> / q = \<bar>x\<bar> * P" by simp
    then have "\<bar>x\<bar> / q = of_int (\<bar>n\<bar> * 2 ^ nat (52 - e))"
      by (simp add: ax P_def)
    moreover have "\<bar>n\<bar> * 2 ^ nat (52 - e) \<noteq> 0" using \<open>n \<noteq> 0\<close> by simp
    moreover have "e \<noteq> 1023" using le by simp
    ultimately have "\<bar>x\<bar> / q = of_int (\<bar>n\<bar> * 2 ^ nat (52 - e))
        \<and> \<bar>n\<bar> * 2 ^ nat (52 - e) \<noteq> 0
        \<and> (e = 1023 \<longrightarrow> \<bar>n\<bar> * 2 ^ nat (52 - e) \<noteq> 2 ^ 53)"
      by simp
    then show ?thesis by (rule exI)
  qed
  then obtain k where k: "\<bar>x\<bar> / q = of_int k" "k \<noteq> 0" "e = 1023 \<longrightarrow> k \<noteq> 2 ^ 53"
    by blast
  have m: "round_half_even (\<bar>x\<bar> / q) = k"
    unfolding k(1) by (rule round_half_even_of_int)
  have kq: "of_int k * q = \<bar>x\<bar>"
    using k(1) qpos by (simp add: field_simps)
  have no_overflow: "\<not> (1024 \<le> e \<or> (e = 1023 \<and> k = 2 ^ 53))"
    using er by simp
  have "round_to_double x = Finite (if x < 0 then - (of_int k * q) else of_int k * q)"
    unfolding q_def
    by (rule round_to_double_eq [OF x0 _ qe _ no_overflow k(2)])
      (simp_all only: e_def m [unfolded q_def e_def])
  then have "round_to_double x = Finite (if x < 0 then - \<bar>x\<bar> else \<bar>x\<bar>)"
    by (simp only: kq)
  then show ?thesis by (simp add: x_def abs_if)
qed

subsection \<open>Arithmetic on whole numbers\<close>

lemma whole_Finite: "whole n \<Longrightarrow> n = Finite (of_int \<lfloor>value_of n\<rfloor>)"
  by (cases n) (simp_all add: whole_def)

lemma whole_of_int: "whole (Finite (of_int k))"
  by (simp add: whole_def)

lemma js_plus_whole:
  assumes "\<bar>a + b\<bar> \<le> 2 ^ 53"
  shows "js_plus (Finite (of_int a)) (Finite (of_int b)) = Finite (of_int (a + b))"
proof -
  have "round_to_double (of_int a + of_int b) = Finite (of_int (a + b))"
    using round_to_double_of_int [OF assms] by simp
  then show ?thesis
    by (simp add: js_plus_def signed_zero_def)
qed

lemma js_minus_whole:
  assumes "\<bar>a - b\<bar> \<le> 2 ^ 53"
  shows "js_minus (Finite (of_int a)) (Finite (of_int b)) = Finite (of_int (a - b))"
proof -
  have "round_to_double (of_int a + - of_int b) = Finite (of_int (a - b))"
    using round_to_double_of_int [OF assms] by simp
  then show ?thesis
    by (simp add: js_minus_def js_plus_def signed_zero_def)
qed

lemma foldl_js_plus_whole:
  assumes "list_all whole xs"
    and "of_int \<bar>a\<bar> + sum_list (map (\<lambda>v. \<bar>value_of v\<bar>) xs) \<le> 2 ^ 53"
  shows "foldl (\<lambda>sum expense. js_plus sum expense) (Finite (of_int a)) xs
    = Finite (of_int a + sum_list (map value_of xs))"
  using assms
proof (induction xs arbitrary: a)
  case Nil
  then show ?case by simp
next
  case (Cons x xs)
  from Cons.prems(1) have wx: "whole x" and wxs: "list_all whole xs" by simp_all
  define k where "k = \<lfloor>value_of x\<rfloor>"
  have x: "x = Finite (of_int k)" unfolding k_def using wx by (rule whole_Finite)
  have rest: "0 \<le> sum_list (map (\<lambda>v. \<bar>value_of v\<bar>) xs)"
    by (rule sum_list_nonneg) auto
  from Cons.prems(2) have b: "(of_int \<bar>a\<bar> :: rat) + of_int \<bar>k\<bar>
      + sum_list (map (\<lambda>v. \<bar>value_of v\<bar>) xs) \<le> 2 ^ 53"
    by (simp add: x)
  have "\<bar>a + k\<bar> \<le> \<bar>a\<bar> + \<bar>k\<bar>" by simp
  then have "(of_int \<bar>a + k\<bar> :: rat) \<le> of_int (\<bar>a\<bar> + \<bar>k\<bar>)"
    by (simp only: of_int_le_iff)
  then have "(of_int \<bar>a + k\<bar> :: rat) \<le> of_int \<bar>a\<bar> + of_int \<bar>k\<bar>"
    by (simp only: of_int_add)
  with b rest have ak: "(of_int \<bar>a + k\<bar> :: rat) \<le> of_int (2 ^ 53)"
    and b': "(of_int \<bar>a + k\<bar> :: rat) + sum_list (map (\<lambda>v. \<bar>value_of v\<bar>) xs) \<le> 2 ^ 53"
    by simp_all
  from ak have "\<bar>a + k\<bar> \<le> 2 ^ 53" by (simp only: of_int_le_iff)
  then have step: "js_plus (Finite (of_int a)) x = Finite (of_int (a + k))"
    unfolding x by (rule js_plus_whole)
  show ?case
    using Cons.IH [OF wxs b'] by (simp add: step) (simp add: x)
qed

lemma totalExpenses_whole:
  assumes "whole_expenses st"
  shows "totalExpenses st = Finite (sum_list (map value_of (map snd (expenses st))))"
proof -
  have "foldl (\<lambda>sum expense. js_plus sum expense) (Finite (of_int 0)) (map snd (expenses st))
      = Finite (of_int 0 + sum_list (map value_of (map snd (expenses st))))"
    using assms by (intro foldl_js_plus_whole) (simp_all add: whole_expenses_def)
  then show ?thesis by (simp add: totalExpenses_def)
qed


lemma normal_range:
  assumes "1 / 2 ^ 60 \<le> \<bar>x::rat\<bar>" and "\<bar>x\<bar> \<le> 2 ^ 62"
  shows "2 powi (- 1022) \<le> \<bar>x\<bar>" and "\<bar>x\<bar> \<le> 2 powi 1023"
proof -
  have "(2::rat) powi (- 1022) \<le> 2 powi (- 60)"
    by (rule power_int_increasing) simp_all
  also have "(2::rat) powi (- 60) = 1 / 2 ^ 60"
    by (simp add: power_int_minus_divide)
  finally show "2 powi (- 1022) \<le> \<bar>x\<bar>" using assms(1) by simp
  have "(2::rat) powi 62 \<le> 2 powi 1023"
    by (rule power_int_increasing) simp_all
  moreover have "(2::rat) powi 62 = 2 ^ 62" by simp
  ultimately show "\<bar>x\<bar> \<le> 2 powi 1023" using assms(2) by simp
qed

lemma round_to_double_close:
  assumes "1 / 2 ^ 60 \<le> \<bar>x::rat\<bar>" and "\<bar>x\<bar> \<le> 2 ^ 62"
  shows "\<exists>y. round_to_double x = Finite y \<and> \<bar>y - x\<bar> \<le> \<bar>x\<bar> / 2 ^ 53 \<and> y \<noteq> 0"
  using normal_range [OF assms] by (rule round_to_double_normal)

text \<open>
  The quotient of two whole numbers times 100, each operation rounded: a finite number
  within a relative error of \<open>2^-51\<close> of the exact value.
\<close>

lemma percentage_accuracy:
  assumes s: "\<bar>s\<bar> \<le> 2 ^ 53" and i: "\<bar>i\<bar> \<le> 2 ^ 53" and i0: "i \<noteq> 0"
  defines "p \<equiv> js_times (js_divide (Finite (of_int s)) (Finite (of_int i))) (Finite 100)"
  shows "is_finite p
    \<and> \<bar>value_of p - of_int s / of_int i * 100\<bar> \<le> \<bar>of_int s / of_int i * 100\<bar> / 2 ^ 51"
proof (cases "s = 0")
  case True
  then show ?thesis
    using i0 by (simp add: p_def js_divide_def js_times_def signed_zero_def)
next
  case False
  define q :: rat where "q = of_int s / of_int i"
  have si: "1 \<le> \<bar>s\<bar>" "1 \<le> \<bar>i\<bar>" using False i0 by simp_all
  have rs: "(1::rat) \<le> \<bar>of_int s\<bar>" "\<bar>of_int s :: rat\<bar> \<le> 2 ^ 53"
    and ri: "(1::rat) \<le> \<bar>of_int i\<bar>" "\<bar>of_int i :: rat\<bar> \<le> 2 ^ 53"
  proof -
    have "(of_int 1 :: rat) \<le> of_int \<bar>s\<bar>" using si(1) by (simp only: of_int_le_iff)
    then show "(1::rat) \<le> \<bar>of_int s\<bar>" by simp
    have "(of_int \<bar>s\<bar> :: rat) \<le> of_int (2 ^ 53)" using s by (simp only: of_int_le_iff)
    then show "\<bar>of_int s :: rat\<bar> \<le> 2 ^ 53" by simp
    have "(of_int 1 :: rat) \<le> of_int \<bar>i\<bar>" using si(2) by (simp only: of_int_le_iff)
    then show "(1::rat) \<le> \<bar>of_int i\<bar>" by simp
    have "(of_int \<bar>i\<bar> :: rat) \<le> of_int (2 ^ 53)" using i by (simp only: of_int_le_iff)
    then show "\<bar>of_int i :: rat\<bar> \<le> 2 ^ 53" by simp
  qed
  have aq: "\<bar>q\<bar> = \<bar>of_int s\<bar> / \<bar>of_int i\<bar>" by (simp add: q_def)
  have ipos: "0 < \<bar>of_int i :: rat\<bar>" using ri(1) by simp
  have qlo: "1 / 2 ^ 53 \<le> \<bar>q\<bar>"
  proof -
    have "1 / 2 ^ 53 \<le> 1 / \<bar>of_int i :: rat\<bar>"
      using ri ipos by (intro divide_left_mono) simp_all
    also have "\<dots> \<le> \<bar>of_int s\<bar> / \<bar>of_int i\<bar>"
      using rs(1) ipos by (intro divide_right_mono) simp_all
    finally show ?thesis unfolding aq .
  qed
  have qhi: "\<bar>q\<bar> \<le> 2 ^ 53"
  proof -
    have "\<bar>of_int s\<bar> / \<bar>of_int i :: rat\<bar> \<le> \<bar>of_int s\<bar> / 1"
      using ri(1) by (intro divide_left_mono) simp_all
    with rs(2) show ?thesis unfolding aq by simp
  qed
  have "1 / 2 ^ 60 \<le> \<bar>q\<bar>" using qlo by simp
  moreover have "\<bar>q\<bar> \<le> 2 ^ 62" using qhi by simp
  ultimately obtain y1 where y1: "round_to_double q = Finite y1"
      "\<bar>y1 - q\<bar> \<le> \<bar>q\<bar> / 2 ^ 53" "y1 \<noteq> 0"
    using round_to_double_close by blast
  have quot: "js_divide (Finite (of_int s)) (Finite (of_int i)) = Finite y1"
    using False i0 y1(1) by (simp add: js_divide_def q_def)
  have y1b: "\<bar>y1\<bar> \<le> \<bar>q\<bar> + \<bar>q\<bar> / 2 ^ 53" "\<bar>q\<bar> - \<bar>q\<bar> / 2 ^ 53 \<le> \<bar>y1\<bar>"
    using y1(2) by (simp_all add: abs_le_iff abs_if split: if_splits)
  have "1 / 2 ^ 60 \<le> \<bar>y1 * 100\<bar>"
    using y1b(2) qlo by (simp add: abs_mult)
  moreover have "\<bar>y1 * 100\<bar> \<le> 2 ^ 62"
    using y1b(1) qhi by (simp add: abs_mult)
  ultimately obtain y2 where y2: "round_to_double (y1 * 100) = Finite y2"
      "\<bar>y2 - y1 * 100\<bar> \<le> \<bar>y1 * 100\<bar> / 2 ^ 53" "y2 \<noteq> 0"
    using round_to_double_close by blast
  have p: "p = Finite y2"
    using y1(3) y2(1) by (simp add: p_def quot js_times_def)
  have "\<bar>y2 - q * 100\<bar> \<le> \<bar>y2 - y1 * 100\<bar> + 100 * \<bar>y1 - q\<bar>"
    by (simp add: abs_le_iff abs_if split: if_splits)
  also have "\<dots> \<le> \<bar>y1\<bar> * 100 / 2 ^ 53 + 100 * (\<bar>q\<bar> / 2 ^ 53)"
    using y2(2) y1(2) by (simp add: abs_mult)
  also have "\<dots> \<le> \<bar>q\<bar> * 100 / 2 ^ 51"
    using y1b(1) by simp
  finally have "\<bar>y2 - q * 100\<bar> \<le> \<bar>q * 100\<bar> / 2 ^ 51"
    by (simp add: abs_mult)
  then show ?thesis
    by (simp add: p q_def)
qed

lemma savings_whole:
  assumes "whole_amounts st"
  shows "whole_expenses st"
    and "savings st = Finite (value_of (income st)
      - sum_list (map value_of (map snd (expenses st))))"
    and "\<exists>s i. savings st = Finite (of_int s) \<and> income st = Finite (of_int i)
      \<and> \<bar>s\<bar> \<le> 2 ^ 53 \<and> \<bar>i\<bar> \<le> 2 ^ 53"
proof -
  define xs where "xs = map snd (expenses st)"
  define i where "i = \<lfloor>value_of (income st)\<rfloor>"
  have inc: "income st = Finite (of_int i)"
    unfolding i_def using assms by (intro whole_Finite) (simp add: whole_amounts_def)
  have all: "list_all whole xs"
    using assms by (simp add: whole_amounts_def xs_def)
  have bound: "\<bar>of_int i :: rat\<bar> + sum_list (map (\<lambda>v. \<bar>value_of v\<bar>) xs) \<le> 2 ^ 53"
    using assms by (simp add: whole_amounts_def xs_def inc)
  have nonneg: "0 \<le> sum_list (map (\<lambda>v. \<bar>value_of v\<bar>) xs)"
    by (rule sum_list_nonneg) auto
  show we: "whole_expenses st"
    using all bound by (simp add: whole_expenses_def xs_def [symmetric])
  have total: "totalExpenses st = Finite (sum_list (map value_of xs))"
    unfolding xs_def using we by (rule totalExpenses_whole)
  have tri: "\<bar>sum_list (map value_of xs)\<bar> \<le> sum_list (map (\<lambda>v. \<bar>value_of v\<bar>) xs)"
    by (induction xs) (auto simp: abs_le_iff abs_if split: if_splits)
  have "\<exists>t. sum_list (map value_of xs) = of_int t"
    using all
  proof (induction xs)
    case Nil
    then show ?case by (intro exI [of _ 0]) simp
  next
    case (Cons x xs)
    then obtain t where "sum_list (map value_of xs) = of_int t" by auto
    moreover from Cons.prems have "value_of x = of_int \<lfloor>value_of x\<rfloor>"
      using whole_Finite [of x] by (cases x) (simp_all add: whole_def)
    ultimately have "sum_list (map value_of (x # xs)) = of_int (\<lfloor>value_of x\<rfloor> + t)"
      by simp
    then show ?case by (rule exI)
  qed
  then obtain t where t: "sum_list (map value_of xs) = of_int t" ..
  have it: "\<bar>of_int i - of_int t :: rat\<bar> \<le> 2 ^ 53" and ib: "\<bar>of_int i :: rat\<bar> \<le> 2 ^ 53"
    using bound tri nonneg unfolding t by (simp_all add: abs_le_iff abs_if split: if_splits)
  have "(of_int \<bar>i - t\<bar> :: rat) \<le> of_int (2 ^ 53)" using it by simp
  then have d: "\<bar>i - t\<bar> \<le> 2 ^ 53" by (simp only: of_int_le_iff)
  have "(of_int \<bar>i\<bar> :: rat) \<le> of_int (2 ^ 53)" using ib by simp
  then have ii: "\<bar>i\<bar> \<le> 2 ^ 53" by (simp only: of_int_le_iff)
  have sv: "savings st = Finite (of_int (i - t))"
    unfolding savings_def inc total t using d by (rule js_minus_whole)
  then show "savings st = Finite (value_of (income st)
      - sum_list (map value_of (map snd (expenses st))))"
    by (simp add: inc t [symmetric] xs_def)
  show "\<exists>s i. savings st = Finite (of_int s) \<and> income st = Finite (of_int i)
      \<and> \<bar>s\<bar> \<le> 2 ^ 53 \<and> \<bar>i\<bar> \<le> 2 ^ 53"
    using sv inc d ii by blast
qed

lemma percentage_whole:
  assumes "whole_amounts st" and "\<not> is_zero (income st)"
  shows "is_finite (savingsPercentage st)"
    and "\<bar>value_of (savingsPercentage st)
          - value_of (savings st) / value_of (income st) * 100\<bar>
      \<le> \<bar>value_of (savings st) / value_of (income st) * 100\<bar> / 2 ^ 51"
    and "\<bar>value_of (savingsPercentage st)\<bar> < 10 ^ 21"
proof -
  obtain s i where si: "savings st = Finite (of_int s)" "income st = Finite (of_int i)"
      "\<bar>s\<bar> \<le> 2 ^ 53" "\<bar>i\<bar> \<le> 2 ^ 53"
    using savings_whole(3) [OF assms(1)] by blast
  have i0: "i \<noteq> 0" using assms(2) by (simp add: si(2))
  note acc = percentage_accuracy [OF si(3,4) i0]
  show "is_finite (savingsPercentage st)"
    using acc by (simp add: savingsPercentage_def si)
  show close: "\<bar>value_of (savingsPercentage st)
          - value_of (savings st) / value_of (income st) * 100\<bar>
      \<le> \<bar>value_of (savings st) / value_of (income st) * 100\<bar> / 2 ^ 51"
    using acc by (simp add: savingsPercentage_def si)
  have "(of_int \<bar>s\<bar> :: rat) \<le> of_int (2 ^ 53)" using si(3) by (simp only: of_int_le_iff)
  then have rs: "\<bar>of_int s :: rat\<bar> \<le> 2 ^ 53" by simp
  have "1 \<le> \<bar>i\<bar>" using i0 by simp
  then have "(of_int 1 :: rat) \<le> of_int \<bar>i\<bar>" by (simp only: of_int_le_iff)
  then have ri: "(1::rat) \<le> \<bar>of_int i\<bar>" by simp
  define r :: rat where "r = of_int s / of_int i"
  have "\<bar>of_int s\<bar> / \<bar>of_int i :: rat\<bar> \<le> \<bar>of_int s\<bar> / 1"
    using ri by (intro divide_left_mono) simp_all
  with rs have r: "\<bar>r\<bar> \<le> 2 ^ 53"
    by (simp add: r_def)
  have "\<bar>r * 100\<bar> = \<bar>r\<bar> * 100"
    by (simp only: abs_mult abs_numeral)
  with r have "\<bar>r * 100\<bar> \<le> 2 ^ 53 * 100"
    by simp
  moreover have "\<bar>value_of (savingsPercentage st) - r * 100\<bar> \<le> \<bar>r * 100\<bar> / 2 ^ 51"
    using close by (simp only: si value_of.simps r_def)
  ultimately show "\<bar>value_of (savingsPercentage st)\<bar> < 10 ^ 21"
    by (simp add: abs_le_iff abs_if split: if_splits)
qed

subsection \<open>Comparisons\<close>

lemma js_le_not_less:
  "js_le (Finite c) p \<Longrightarrow> d \<le> c \<Longrightarrow> \<not> js_less p (Finite d)"
  by (cases p) (auto simp: js_le_def js_less_def)

subsection \<open>Object updates\<close>

lemma map_of_spread_with:
  "map_of (spread_with prev key v) k = (if k = key then Some v else map_of prev k)"
  by (induction prev) auto

lemma keys_spread_with:
  "key \<in> set (map fst prev) \<Longrightarrow> map fst (spread_with prev key v) = map fst prev"
  by (induction prev) auto

lemma category_name_key: "category_name c \<in> set category_keys"
  by (cases c) (simp_all add: category_keys_def)

lemma six_keys_iff:
  "six_keys st \<longleftrightarrow> (\<exists>ho tr fo ut en ot. expenses st = six_entries ho tr fo ut en ot)"
  by (auto simp: six_keys_def six_entries_def category_keys_def map_eq_Cons_conv)

lemma capitalized_keys:
  "capitalized ''housing'' = ''Housing''"
  "capitalized ''transportation'' = ''Transportation''"
  "capitalized ''food'' = ''Food''"
  "capitalized ''utilities'' = ''Utilities''"
  "capitalized ''entertainment'' = ''Entertainment''"
  "capitalized ''other'' = ''Other''"
  by code_simp+

lemma messages_distinct:
  "distinct [exceed_message, less_than_10_message, aim_for_20_message, great_job_message]"
  by code_simp

subsection \<open>Digits and the shape of a fixed-point numeral\<close>

lemma digit_char_is_digit: "0 \<le> d \<Longrightarrow> d < 10 \<Longrightarrow> is_digit (digit_char d)"
  unfolding is_digit_def digit_char_def
  by (rule nth_mem) simp

lemma digits_of_digits: "0 \<le> n \<Longrightarrow> digits_of n \<noteq> [] \<and> list_all is_digit (digits_of n)"
proof (induction n rule: digits_of.induct)
  case (1 n)
  show ?case
  proof (cases "n < 10")
    case True
    with "1.prems" show ?thesis
      by (simp add: digits_of.simps [of n] digit_char_is_digit)
  next
    case False
    with "1.prems" have "0 \<le> n div 10" by simp
    with "1.IH" False have "list_all is_digit (digits_of (n div 10))" by simp
    moreover have "is_digit (digit_char (n mod 10))"
      by (rule digit_char_is_digit) simp_all
    ultimately show ?thesis
      using False by (simp add: digits_of.simps [of n])
  qed
qed

lemma is_digit_not_minus: "is_digit c \<Longrightarrow> c \<noteq> CHR ''-''"
  by (auto simp: is_digit_def)

lemma two_decimal_percent_shape:
  assumes "ip \<noteq> []" "list_all is_digit ip" "is_digit d1" "is_digit d2" "s = [] \<or> s = ''-''"
  shows "two_decimal_percent (s @ ip @ ''.'' @ [d1, d2] @ ''%'')"
proof -
  have first: "last (rev ip) \<noteq> CHR ''-''"
    using assms(1,2) by (cases ip) (auto simp: is_digit_not_minus)
  have all: "list_all is_digit (rev ip)"
    using assms(2) by (simp add: list_all_iff)
  from assms(5) show ?thesis
  proof
    assume "s = []"
    with assms first all show ?thesis
      by (simp add: two_decimal_percent_def)
  next
    assume "s = ''-''"
    with assms first all show ?thesis
      by (simp add: two_decimal_percent_def)
  qed
qed

lemma split_last_two:
  assumes "3 \<le> length m"
  shows "\<exists>d1 d2. drop (length m - 2) m = [d1, d2] \<and> take (length m - 2) m \<noteq> []"
proof -
  have "length (drop (length m - 2) m) = 2" using assms by simp
  then obtain d1 d2 where "drop (length m - 2) m = [d1, d2]"
    by (metis (no_types, opaque_lifting) One_nat_def Suc_1 length_0_conv length_Suc_conv)
  moreover have "take (length m - 2) m \<noteq> []" using assms by auto
  ultimately show ?thesis by blast
qed

lemma fixed_point_two_decimals:
  assumes "0 \<le> x" and "s = [] \<or> s = ''-''"
  shows "two_decimal_percent (s @ fixed_point x 2 @ ''%'')"
proof -
  define n where "n = \<lfloor>x * 10 ^ 2 + 1 / 2\<rfloor>"
  define m0 where "m0 = digits_of n"
  define m where
    "m = (if length m0 \<le> 2 then replicate (2 + 1 - length m0) CHR ''0'' @ m0 else m0)"
  have "0 \<le> n" unfolding n_def using assms(1) by simp
  then have m0: "m0 \<noteq> []" "list_all is_digit m0"
    unfolding m0_def using digits_of_digits by simp_all
  have zero: "is_digit CHR ''0''" by (simp add: is_digit_def)
  have m_digits: "list_all is_digit m"
    using m0 zero by (simp add: m_def list_all_iff)
  have m_len: "3 \<le> length m"
    using m0 by (auto simp: m_def)
  obtain d1 d2 where d: "drop (length m - 2) m = [d1, d2]" "take (length m - 2) m \<noteq> []"
    using split_last_two [OF m_len] by blast
  have "list_all is_digit (drop (length m - 2) m)"
    using m_digits by (auto simp: list_all_iff dest: in_set_dropD)
  with d have dd: "is_digit d1" "is_digit d2" by simp_all
  have ip: "list_all is_digit (take (length m - 2) m)"
    using m_digits by (auto simp: list_all_iff dest: in_set_takeD)
  have "fixed_point x 2 = take (length m - 2) m @ ''.'' @ drop (length m - 2) m"
    by (simp add: fixed_point_def Let_def m_def m0_def n_def)
  then have "s @ fixed_point x 2 @ ''%'' = s @ take (length m - 2) m @ ''.'' @ [d1, d2] @ ''%''"
    using d by simp
  moreover have "two_decimal_percent (s @ take (length m - 2) m @ ''.'' @ [d1, d2] @ ''%'')"
    by (rule two_decimal_percent_shape) (use d ip dd assms(2) in simp_all)
  ultimately show ?thesis by simp
qed

lemma toFixed_two_decimals:
  assumes "is_finite p" and "\<bar>value_of p\<bar> < 10 ^ 21"
  shows "two_decimal_percent (toFixed p 2 @ ''%'')"
proof (cases p)
  case (Finite x)
  have "two_decimal_percent ((if x < 0 then ''-'' else []) @ fixed_point \<bar>x\<bar> 2 @ ''%'')"
    by (rule fixed_point_two_decimals) simp_all
  with assms(2) Finite show ?thesis by simp
next
  case NegZero
  have "two_decimal_percent ([] @ fixed_point 0 2 @ ''%'')"
    by (rule fixed_point_two_decimals) simp_all
  with NegZero show ?thesis by simp
qed (use assms(1) in simp_all)

text \<open>Without income the percentage is not finite, whatever the expenses are.\<close>

lemma percentage_without_income:
  assumes "is_zero (income st)"
  shows "savingsPercentage st \<in> {NaN, PosInfinity, NegInfinity}"
proof -
  have "js_divide (savings st) (income st) \<in> {NaN, PosInfinity, NegInfinity}"
    using assms by (cases "savings st") (auto simp: js_divide_def signed_infinity_def)
  then show ?thesis
    by (auto simp: savingsPercentage_def js_times_def signed_infinity_def)
qed

subsection \<open>The exports on a state of the declared shape\<close>

lemma excel_rows_six:
  assumes "expenses st = six_entries ho tr fo ut en ot"
  shows "excel_rows st =
    [[(''Category'', Str ''Income''), (''Amount'', Num (income st))],
     [(''Category'', Str ''Housing''), (''Amount'', Num ho)],
     [(''Category'', Str ''Transportation''), (''Amount'', Num tr)],
     [(''Category'', Str ''Food''), (''Amount'', Num fo)],
     [(''Category'', Str ''Utilities''), (''Amount'', Num ut)],
     [(''Category'', Str ''Entertainment''), (''Amount'', Num en)],
     [(''Category'', Str ''Other''), (''Amount'', Num ot)],
     [(''Category'', Str ''Total Expenses''), (''Amount'', Num (totalExpenses st))],
     [(''Category'', Str ''Savings''), (''Amount'', Num (savings st))],
     [(''Category'', Str ''Savings Percentage''),
      (''Amount'', Str (toFixed (savingsPercentage st) 2 @ ''%''))]]"
  using assms
  by (simp add: excel_rows_def six_entries_def category_keys_def capitalized_keys)

lemma downloadAsTxt_content:
  "downloads (downloadAsTxt toLocaleString pg) =
     downloads pg @ [(''my_budget_plan.txt'', Blob (budgetText toLocaleString pg) ''text/plain'')]"
  by (simp add: downloadAsTxt_def)

section \<open>Properties\<close>

subsection \<open>Recommendation tiers\<close>

text \<open>
  Claim C1. The recommendation is chosen by thresholds on the savings percentage, the
  first match winning. In every state with a positive income, a percentage below 0 gives
  the "expenses exceed income" message, one from 0 and below 10 the "saving less than
  10%" message, one from 10 and below 20 the "aim for 20%" message and one from 20 on the
  "great job" message; so exactly 10 gives "aim for 20%" and exactly 20 "great job". The
  comparisons are those of JavaScript. On whole amounts that add up to no more than
  \<open>2^53\<close> the percentage is a finite number.
\<close>

theorem recommendation_tiers:
  assumes "js_less (Finite 0) (income st)"
  shows "(js_less (savingsPercentage st) (Finite 0) \<longrightarrow> recommendation st = exceed_message)
     \<and> (js_le (Finite 0) (savingsPercentage st) \<and> js_less (savingsPercentage st) (Finite 10)
          \<longrightarrow> recommendation st = less_than_10_message)
     \<and> (js_le (Finite 10) (savingsPercentage st) \<and> js_less (savingsPercentage st) (Finite 20)
          \<longrightarrow> recommendation st = aim_for_20_message)
     \<and> (js_le (Finite 20) (savingsPercentage st) \<longrightarrow> recommendation st = great_job_message)
     \<and> (whole_amounts st \<longrightarrow> is_finite (savingsPercentage st))"
proof -
  have "\<not> is_zero (income st)"
    using assms by (cases "income st") (simp_all add: js_less_def)
  then have "whole_amounts st \<longrightarrow> is_finite (savingsPercentage st)"
    using percentage_whole(1) by blast
  moreover have "js_le (Finite c) (savingsPercentage st) \<Longrightarrow> d \<le> c
      \<Longrightarrow> \<not> js_less (savingsPercentage st) (Finite d)" for c d
    by (rule js_le_not_less)
  ultimately show ?thesis
    by (auto simp: recommendation_def)
qed

text \<open>
  One state in each tier: \<open>-25\<close>, \<open>5\<close>, exactly \<open>10\<close> and exactly \<open>20\<close> per cent.
\<close>

theorem recommendation_tiers_witness:
  "js_less (Finite 0) (income deficit_budget)
   \<and> recommendation deficit_budget = exceed_message
   \<and> js_less (Finite 0) (income five_percent_budget)
   \<and> recommendation five_percent_budget = less_than_10_message
   \<and> js_less (Finite 0) (income ten_percent_budget)
   \<and> savingsPercentage ten_percent_budget = Finite 10
   \<and> recommendation ten_percent_budget = aim_for_20_message
   \<and> js_less (Finite 0) (income twenty_percent_budget)
   \<and> savingsPercentage twenty_percent_budget = Finite 20
   \<and> recommendation twenty_percent_budget = great_job_message
   \<and> whole_amounts twenty_percent_budget
   \<and> is_finite (savingsPercentage twenty_percent_budget)"
proof -
  have i: "js_less (Finite 0) (income deficit_budget)"
    "js_less (Finite 0) (income five_percent_budget)"
    "js_less (Finite 0) (income ten_percent_budget)"
    "js_less (Finite 0) (income twenty_percent_budget)"
    by (simp_all add: deficit_budget_def five_percent_budget_def ten_percent_budget_def
        twenty_percent_budget_def budget_of_def js_less_def)
  have p: "savingsPercentage deficit_budget = Finite (- 25)"
    "savingsPercentage five_percent_budget = Finite 5"
    "savingsPercentage ten_percent_budget = Finite 10"
    "savingsPercentage twenty_percent_budget = Finite 20"
    by code_simp+
  have w: "whole_amounts twenty_percent_budget"
    by (simp add: twenty_percent_budget_def whole_amounts_def whole_def budget_of_def
        six_entries_def category_keys_def)
  have c: "js_less (Finite (- 25)) (Finite 0)" "js_le (Finite 0) (Finite 5)"
    "js_less (Finite 5) (Finite 10)" "js_le (Finite 10) (Finite 10)"
    "js_less (Finite 10) (Finite 20)" "js_le (Finite 20) (Finite 20)"
    by (simp_all add: js_less_def js_le_def)
  have r1: "recommendation deficit_budget = exceed_message"
    using recommendation_tiers [OF i(1)] c(1) unfolding p by simp
  have r2: "recommendation five_percent_budget = less_than_10_message"
    using recommendation_tiers [OF i(2)] c(2,3) unfolding p by simp
  have r3: "recommendation ten_percent_budget = aim_for_20_message"
    using recommendation_tiers [OF i(3)] c(4,5) unfolding p by simp
  have r4: "recommendation twenty_percent_budget = great_job_message"
    "is_finite (savingsPercentage twenty_percent_budget)"
    using recommendation_tiers [OF i(4)] c(6) w unfolding p by simp_all
  show ?thesis
    using i p w r1 r2 r3 r4 by simp
qed

subsection \<open>The head of the text export\<close>

text \<open>
  Claim C2, as stated, fails: the text does not begin with \<^verbatim>\<open>BUDGET SUMMARY\<close>. Its first
  character is the line break that follows the opening back quote of the template.
\<close>

theorem text_export_header_counterexample:
  "\<not> starts_with ''BUDGET SUMMARY\<newline>==============\<newline>\<newline>''
       (budgetText en_US initial_budget)"
  by code_simp

text \<open>
  Claim C2, amended. In every state and under every host locale, the text begins with a
  line break, the lines \<^verbatim>\<open>BUDGET SUMMARY\<close> and \<^verbatim>\<open>==============\<close>, an empty line and the
  income line, which is \<^verbatim>\<open>Income: $\<close> and the income as the host formats it. In the
  initial state, formatted for \<open>en_US\<close>, the income line reads \<^verbatim>\<open>Income: $5,000\<close>.
\<close>

theorem text_export_header:
  "starts_with
     (''\<newline>BUDGET SUMMARY\<newline>==============\<newline>\<newline>Income: $''
        @ toLocaleString (income st) @ ''\<newline>'')
     (budgetText toLocaleString st)
   \<and> starts_with
       ''\<newline>BUDGET SUMMARY\<newline>==============\<newline>\<newline>Income: $5,000\<newline>''
       (budgetText en_US initial_budget)"
proof
  show "starts_with
     (''\<newline>BUDGET SUMMARY\<newline>==============\<newline>\<newline>Income: $''
        @ toLocaleString (income st) @ ''\<newline>'')
     (budgetText toLocaleString st)"
    by (simp add: starts_with_def budgetText_def)
  show "starts_with
       ''\<newline>BUDGET SUMMARY\<newline>==============\<newline>\<newline>Income: $5,000\<newline>''
       (budgetText en_US initial_budget)"
    by code_simp
qed

subsection \<open>Changing one expense\<close>

text \<open>
  Claim C3. On a state with the six keys, for every category and every new value,
  \<^verbatim>\<open>handleExpenseChange\<close> replaces the entry named by the category and leaves the other five
  entries, and the income, as they were. A category is one of the six keys, its type
  admits no other, so no call is left to ignore or to reject; and in all cases the six
  keys are present afterwards, in their order.
\<close>

theorem handleExpenseChange_frame:
  assumes "six_keys st"
  shows "entry (handleExpenseChange category v st) (category_name category) = Some v
     \<and> (\<forall>k. k \<noteq> category_name category \<longrightarrow>
          entry (handleExpenseChange category v st) k = entry st k)
     \<and> income (handleExpenseChange category v st) = income st
     \<and> category_name category \<in> set category_keys
     \<and> six_keys (handleExpenseChange category v st)"
proof -
  have keys: "map fst (expenses st) = category_keys"
    using assms by (simp add: six_keys_def)
  have "category_name category \<in> set (map fst (expenses st))"
    unfolding keys by (rule category_name_key)
  then have "map fst (spread_with (expenses st) (category_name category) v) = category_keys"
    using keys by (simp only: keys_spread_with)
  then show ?thesis
    by (simp add: handleExpenseChange_def entry_def six_keys_def map_of_spread_with
        category_name_key)
qed

theorem handleExpenseChange_frame_witness:
  "six_keys initial_budget
   \<and> ''housing'' \<noteq> category_name food
   \<and> entry (handleExpenseChange food (Finite 700) initial_budget) ''food'' = Some (Finite 700)
   \<and> entry (handleExpenseChange food (Finite 700) initial_budget) ''housing'' = Some (Finite 1500)
   \<and> six_keys (handleExpenseChange food (Finite 700) initial_budget)"
proof -
  have k: "six_keys initial_budget"
    by (simp add: six_keys_def initial_budget_def initial_expenses_def category_keys_def)
  have n: "''housing'' \<noteq> category_name food" by simp
  have e: "entry initial_budget ''housing'' = Some (Finite 1500)"
    by (simp add: entry_def initial_budget_def initial_expenses_def)
  show ?thesis
    using handleExpenseChange_frame [OF k, of food "Finite 700"] k n e
    by simp
qed

subsection \<open>Total, savings and percentage\<close>




text \<open>
  Claim C5, as stated, fails. The savings are not exactly the income minus the total
  when the subtraction rounds: an income of 5000.5 and one expense of 0.1 leave savings
  of \<^verbatim>\<open>5000.4\<close>, a double that is not the difference of the two. The percentage is not
  the exact quotient times 100: for an income of 8000 and savings of 2050 it is
  \<^verbatim>\<open>25.624999999999996\<close>, not 25.625.
\<close>

theorem savings_and_percentage_counterexample:
  "savings fraction_income_budget
     \<noteq> Finite (value_of (income fraction_income_budget)
          - value_of (totalExpenses fraction_income_budget))
   \<and> savings quarter_budget = Finite 2050
   \<and> savingsPercentage quarter_budget = Finite (7212796278210559 / 281474976710656)
   \<and> savingsPercentage quarter_budget \<noteq> Finite (2050 / 8000 * 100)"
  by code_simp

text \<open>
  Claim C5, amended. In every state the savings are the income minus the total of the
  expenses, and the savings percentage is the savings divided by the income, times 100,
  each of the three operations rounded to the nearest double. If the amounts are whole
  numbers whose magnitudes add up to no more than \<open>2^53\<close>, the savings are exactly the
  income minus the sum of the expenses, negative when the expenses are the larger; and
  if moreover the income is not zero, the percentage is a finite number within a
  relative error of \<open>2^-51\<close> of the exact quotient times 100.
\<close>

theorem savings_and_percentage:
  "savings st = js_minus (income st) (totalExpenses st)
   \<and> savingsPercentage st = js_times (js_divide (savings st) (income st)) (Finite 100)
   \<and> (whole_amounts st \<longrightarrow>
        savings st
          = Finite (value_of (income st) - sum_list (map value_of (map snd (expenses st))))
        \<and> (\<not> is_zero (income st) \<longrightarrow>
             is_finite (savingsPercentage st)
             \<and> \<bar>value_of (savingsPercentage st)
                  - value_of (savings st) / value_of (income st) * 100\<bar>
               \<le> \<bar>value_of (savings st) / value_of (income st) * 100\<bar> / 2 ^ 51))"
  using savings_whole(2) [of st] percentage_whole(1,2) [of st]
  by (simp add: savings_def savingsPercentage_def)

theorem savings_and_percentage_witness:
  "whole_amounts deficit_budget
   \<and> \<not> is_zero (income deficit_budget)
   \<and> savings deficit_budget = Finite (- 500)
   \<and> savingsPercentage deficit_budget = Finite (- 25)
   \<and> whole_amounts quarter_budget
   \<and> \<not> is_zero (income quarter_budget)
   \<and> \<bar>value_of (savingsPercentage quarter_budget) - 2050 / 8000 * 100\<bar>
       \<le> \<bar>2050 / 8000 * 100 :: rat\<bar> / 2 ^ 51"
proof -
  have w: "whole_amounts deficit_budget" "whole_amounts quarter_budget"
    by (simp_all add: deficit_budget_def quarter_budget_def whole_amounts_def whole_def
        budget_of_def six_entries_def category_keys_def)
  have i: "income deficit_budget = Finite 2000" "income quarter_budget = Finite 8000"
    by (simp_all add: deficit_budget_def quarter_budget_def budget_of_def)
  have e: "sum_list (map value_of (map snd (expenses deficit_budget))) = 2500"
    by (simp add: deficit_budget_def budget_of_def six_entries_def category_keys_def)
  have s: "savings quarter_budget = Finite 2050"
    "savingsPercentage deficit_budget = Finite (- 25)"
    by code_simp+
  have z: "\<not> is_zero (income deficit_budget)" "\<not> is_zero (income quarter_budget)"
    by (simp_all add: i)
  have "savings deficit_budget
      = Finite (value_of (income deficit_budget)
          - sum_list (map value_of (map snd (expenses deficit_budget))))"
    using savings_and_percentage [of deficit_budget] w(1) by blast
  then have d: "savings deficit_budget = Finite (- 500)"
    by (simp only: i e value_of.simps) simp
  have "\<bar>value_of (savingsPercentage quarter_budget)
        - value_of (savings quarter_budget) / value_of (income quarter_budget) * 100\<bar>
      \<le> \<bar>value_of (savings quarter_budget) / value_of (income quarter_budget) * 100\<bar> / 2 ^ 51"
    using savings_and_percentage [of quarter_budget] w(2) z(2) by blast
  then have q: "\<bar>value_of (savingsPercentage quarter_budget) - 2050 / 8000 * 100\<bar>
      \<le> \<bar>2050 / 8000 * 100 :: rat\<bar> / 2 ^ 51"
    by (simp only: i s value_of.simps)
  show ?thesis
    using w z d s(2) q by blast
qed

subsection \<open>The spreadsheet export\<close>

text \<open>
  Claim C6, as stated, fails in a state without income, which emptying the income field
  produces: the percentage is not finite, and the last row holds \<^verbatim>\<open>-Infinity%\<close>, a
  string without decimals. It fails for a percentage of magnitude \<open>10^21\<close> or more as
  well, which \<^verbatim>\<open>toFixed\<close> prints in exponent notation.
\<close>

theorem excel_export_counterexample:
  "last (cells (json_to_sheet (excel_rows no_income_page)))
     = [Some (Str ''Savings Percentage''), Some (Str ''-Infinity%'')]
   \<and> \<not> two_decimal_percent ''-Infinity%''
   \<and> last (cells (json_to_sheet (excel_rows huge_expense_page)))
     = [Some (Str ''Savings Percentage''), Some (Str ''-1e+21%'')]
   \<and> \<not> two_decimal_percent ''-1e+21%''"
  by code_simp

text \<open>
  Claim C6, amended. On a state with the six keys, the spreadsheet export offers a file
  named \<^verbatim>\<open>my_budget_plan.xlsx\<close> with one sheet, \<^verbatim>\<open>Budget Summary\<close>, whose columns are
  \<^verbatim>\<open>Category\<close> and \<^verbatim>\<open>Amount\<close> and whose rows are, in this order, the income, the six
  categories with capitalized labels in declaration order, the total of the expenses,
  the savings and the savings percentage. The amounts are numbers; the percentage is the
  string that \<^verbatim>\<open>toFixed(2)\<close> makes of it, followed by a per cent sign. That string has
  exactly two decimals whenever the percentage is finite and below \<open>10^21\<close> in magnitude,
  which it is for whole amounts that add up to no more than \<open>2^53\<close> and an income other
  than zero. With an income of zero it is \<^verbatim>\<open>NaN%\<close>, \<^verbatim>\<open>Infinity%\<close> or \<^verbatim>\<open>-Infinity%\<close>.
\<close>

theorem excel_export_table:
  assumes "expenses pg = six_entries ho tr fo ut en ot"
  shows "downloads (downloadAsExcel pg) = downloads pg @
     [(''my_budget_plan.xlsx'',
       Workbook [(''Budget Summary'',
         \<lparr>header = [''Category'', ''Amount''],
          cells =
            [[Some (Str ''Income''), Some (Num (income pg))],
             [Some (Str ''Housing''), Some (Num ho)],
             [Some (Str ''Transportation''), Some (Num tr)],
             [Some (Str ''Food''), Some (Num fo)],
             [Some (Str ''Utilities''), Some (Num ut)],
             [Some (Str ''Entertainment''), Some (Num en)],
             [Some (Str ''Other''), Some (Num ot)],
             [Some (Str ''Total Expenses''), Some (Num (totalExpenses pg))],
             [Some (Str ''Savings''), Some (Num (savings pg))],
             [Some (Str ''Savings Percentage''),
              Some (Str (toFixed (savingsPercentage pg) 2 @ ''%''))]]\<rparr>)])]
   \<and> (is_finite (savingsPercentage pg) \<and> \<bar>value_of (savingsPercentage pg)\<bar> < 10 ^ 21 \<longrightarrow>
        two_decimal_percent (toFixed (savingsPercentage pg) 2 @ ''%''))
   \<and> (whole_amounts pg \<and> \<not> is_zero (income pg) \<longrightarrow>
        two_decimal_percent (toFixed (savingsPercentage pg) 2 @ ''%''))
   \<and> (is_zero (income pg) \<longrightarrow>
        toFixed (savingsPercentage pg) 2 @ ''%'' \<in> {''NaN%'', ''Infinity%'', ''-Infinity%''})"
proof (intro conjI)
  show "downloads (downloadAsExcel pg) = downloads pg @
     [(''my_budget_plan.xlsx'',
       Workbook [(''Budget Summary'',
         \<lparr>header = [''Category'', ''Amount''],
          cells =
            [[Some (Str ''Income''), Some (Num (income pg))],
             [Some (Str ''Housing''), Some (Num ho)],
             [Some (Str ''Transportation''), Some (Num tr)],
             [Some (Str ''Food''), Some (Num fo)],
             [Some (Str ''Utilities''), Some (Num ut)],
             [Some (Str ''Entertainment''), Some (Num en)],
             [Some (Str ''Other''), Some (Num ot)],
             [Some (Str ''Total Expenses''), Some (Num (totalExpenses pg))],
             [Some (Str ''Savings''), Some (Num (savings pg))],
             [Some (Str ''Savings Percentage''),
              Some (Str (toFixed (savingsPercentage pg) 2 @ ''%''))]]\<rparr>)])]"
    by (simp add: downloadAsExcel_def excel_rows_six [OF assms] json_to_sheet_def
        book_append_sheet_def book_new_def)
  show "is_finite (savingsPercentage pg) \<and> \<bar>value_of (savingsPercentage pg)\<bar> < 10 ^ 21 \<longrightarrow>
        two_decimal_percent (toFixed (savingsPercentage pg) 2 @ ''%'')"
    using toFixed_two_decimals by blast
  show "whole_amounts pg \<and> \<not> is_zero (income pg) \<longrightarrow>
        two_decimal_percent (toFixed (savingsPercentage pg) 2 @ ''%'')"
    using toFixed_two_decimals percentage_whole(1,3) by blast
  show "is_zero (income pg) \<longrightarrow>
        toFixed (savingsPercentage pg) 2 @ ''%'' \<in> {''NaN%'', ''Infinity%'', ''-Infinity%''}"
    using percentage_without_income [of pg] by auto
qed

text \<open>
  The initial state, with ten rows, labelled as listed, and \<^verbatim>\<open>34.00%\<close>; a state whose
  percentage is no double, with \<^verbatim>\<open>25.62%\<close>; and the state without income.
\<close>

theorem excel_export_table_witness:
  "expenses initial_page
     = six_entries (Finite 1500) (Finite 400) (Finite 600) (Finite 300) (Finite 200) (Finite 300)
   \<and> whole_amounts initial_page \<and> \<not> is_zero (income initial_page)
   \<and> toFixed (savingsPercentage initial_page) 2 @ ''%'' = ''34.00%''
   \<and> two_decimal_percent ''34.00%''
   \<and> map (\<lambda>row. row ! 0)
       (case snd (last (downloads (downloadAsExcel initial_page))) of
          Workbook wb \<Rightarrow> cells (snd (hd wb))
        | Blob t ty \<Rightarrow> [])
     = map (Some \<circ> Str)
         [''Income'', ''Housing'', ''Transportation'', ''Food'', ''Utilities'',
          ''Entertainment'', ''Other'', ''Total Expenses'', ''Savings'', ''Savings Percentage'']
   \<and> expenses quarter_page
     = six_entries (Finite 4000) (Finite 400) (Finite 600) (Finite 300) (Finite 200) (Finite 450)
   \<and> is_finite (savingsPercentage quarter_page)
   \<and> \<bar>value_of (savingsPercentage quarter_page)\<bar> < 10 ^ 21
   \<and> toFixed (savingsPercentage quarter_page) 2 @ ''%'' = ''25.62%''
   \<and> two_decimal_percent ''25.62%''
   \<and> expenses no_income_page
     = six_entries (Finite 1500) (Finite 400) (Finite 600) (Finite 300) (Finite 200) (Finite 300)
   \<and> is_zero (income no_income_page)
   \<and> toFixed (savingsPercentage no_income_page) 2 @ ''%'' = ''-Infinity%''"
proof -
  have a: "expenses initial_page
      = six_entries (Finite 1500) (Finite 400) (Finite 600) (Finite 300) (Finite 200) (Finite 300)"
    "expenses no_income_page
      = six_entries (Finite 1500) (Finite 400) (Finite 600) (Finite 300) (Finite 200) (Finite 300)"
    "expenses quarter_page
      = six_entries (Finite 4000) (Finite 400) (Finite 600) (Finite 300) (Finite 200) (Finite 450)"
    by (simp_all add: initial_page_def no_income_page_def quarter_page_def quarter_budget_def
        budget_of_def page_of_def initial_expenses_def six_entries_def category_keys_def)
  have i: "whole_amounts initial_page" "\<not> is_zero (income initial_page)"
    "is_zero (income no_income_page)"
    by (simp_all add: initial_page_def no_income_page_def page_of_def initial_expenses_def
        whole_amounts_def whole_def)
  have p: "toFixed (savingsPercentage initial_page) 2 = ''34.00''"
    "toFixed (savingsPercentage quarter_page) 2 = ''25.62''"
    "toFixed (savingsPercentage no_income_page) 2 = ''-Infinity''"
    "savingsPercentage quarter_page = Finite (7212796278210559 / 281474976710656)"
    by code_simp+
  have q: "is_finite (savingsPercentage quarter_page)"
    "\<bar>value_of (savingsPercentage quarter_page)\<bar> < 10 ^ 21"
    by (simp_all add: p(4))
  note t1 = excel_export_table [OF a(1)]
  note t2 = excel_export_table [OF a(3)]
  note t3 = excel_export_table [OF a(2)]
  have d: "downloads initial_page = []"
    by (simp add: initial_page_def page_of_def)
  have rows: "map (\<lambda>row. row ! 0)
       (case snd (last (downloads (downloadAsExcel initial_page))) of
          Workbook wb \<Rightarrow> cells (snd (hd wb))
        | Blob t ty \<Rightarrow> [])
     = map (Some \<circ> Str)
         [''Income'', ''Housing'', ''Transportation'', ''Food'', ''Utilities'',
          ''Entertainment'', ''Other'', ''Total Expenses'', ''Savings'', ''Savings Percentage'']"
    by (simp add: t1 [THEN conjunct1] d)
  have "two_decimal_percent (toFixed (savingsPercentage initial_page) 2 @ ''%'')"
    using t1 i(1,2) by blast
  then have d1: "two_decimal_percent ''34.00%''" by (simp add: p(1))
  have "two_decimal_percent (toFixed (savingsPercentage quarter_page) 2 @ ''%'')"
    using t2 q by blast
  then have d2: "two_decimal_percent ''25.62%''" by (simp add: p(2))
  have "toFixed (savingsPercentage no_income_page) 2 @ ''%''
      \<in> {''NaN%'', ''Infinity%'', ''-Infinity%''}"
    using t3 i(3) by blast
  then have d3: "toFixed (savingsPercentage no_income_page) 2 @ ''%'' = ''-Infinity%''"
    by (simp add: p(3))
  have e: "toFixed (savingsPercentage initial_page) 2 @ ''%'' = ''34.00%''"
    "toFixed (savingsPercentage quarter_page) 2 @ ''%'' = ''25.62%''"
    by (simp_all add: p(1,2))
  show ?thesis
    using a i q rows d1 d2 d3 e by blast
qed

subsection \<open>The chart\<close>

text \<open>
  Claim C7. On a state with the six keys, the chart data are six pairs of a label and a
  value, one for each category in declaration order; the label is the name of the
  category with a capital first letter, the value is the amount, and the six values,
  added as the total is, add up to the total of the expenses.
\<close>

theorem chartData_six:
  assumes "expenses st = six_entries ho tr fo ut en ot"
  shows "chartData st =
      [(''Housing'', ho), (''Transportation'', tr), (''Food'', fo),
       (''Utilities'', ut), (''Entertainment'', en), (''Other'', ot)]
    \<and> length (chartData st) = 6
    \<and> foldl (\<lambda>sum v. js_plus sum v) (Finite 0) (map snd (chartData st)) = totalExpenses st"
  using assms
  by (simp add: chartData_def totalExpenses_def six_entries_def category_keys_def
      capitalized_keys)

theorem chartData_six_witness:
  "expenses initial_budget
     = six_entries (Finite 1500) (Finite 400) (Finite 600) (Finite 300) (Finite 200) (Finite 300)
   \<and> chartData initial_budget =
      [(''Housing'', Finite 1500), (''Transportation'', Finite 400), (''Food'', Finite 600),
       (''Utilities'', Finite 300), (''Entertainment'', Finite 200), (''Other'', Finite 300)]
   \<and> foldl (\<lambda>sum v. js_plus sum v) (Finite 0) (map snd (chartData initial_budget))
       = Finite 3300"
proof -
  have a: "expenses initial_budget
      = six_entries (Finite 1500) (Finite 400) (Finite 600) (Finite 300) (Finite 200) (Finite 300)"
    by (simp add: initial_budget_def initial_expenses_def six_entries_def category_keys_def)
  have t: "totalExpenses initial_budget = Finite 3300"
    by code_simp
  have "chartData initial_budget =
      [(''Housing'', Finite 1500), (''Transportation'', Finite 400), (''Food'', Finite 600),
       (''Utilities'', Finite 300), (''Entertainment'', Finite 200), (''Other'', Finite 300)]"
    and "foldl (\<lambda>sum v. js_plus sum v) (Finite 0) (map snd (chartData initial_budget))
      = totalExpenses initial_budget"
    using chartData_six [OF a] by blast+
  with a t show ?thesis by simp
qed

subsection \<open>The initial state\<close>

text \<open>
  Claim C8. In the initial state, income 5000 with the expenses 1500, 400, 600, 300, 200
  and 300, the total of the expenses is 3300, the savings are 1700, the savings
  percentage is 34, printed \<^verbatim>\<open>34.00\<close>, and the recommendation is the "great job" message.
\<close>

theorem initial_budget_derived_values:
  "income initial_budget = Finite 5000
   \<and> map snd (expenses initial_budget)
       = [Finite 1500, Finite 400, Finite 600, Finite 300, Finite 200, Finite 300]
   \<and> totalExpenses initial_budget = Finite 3300
   \<and> savings initial_budget = Finite 1700
   \<and> savingsPercentage initial_budget = Finite 34
   \<and> toFixed (savingsPercentage initial_budget) 2 = ''34.00''
   \<and> recommendation initial_budget = great_job_message"
  by code_simp

subsection \<open>Exports and the state\<close>

text \<open>
  Claim C9. Neither export changes the state of the component: after
  \<^verbatim>\<open>downloadAsExcel\<close> and after \<^verbatim>\<open>downloadAsTxt\<close> the income and the expenses are what they
  were before.
\<close>

theorem exports_keep_state:
  "income (downloadAsExcel pg) = income pg
   \<and> expenses (downloadAsExcel pg) = expenses pg
   \<and> income (downloadAsTxt toLocaleString pg) = income pg
   \<and> expenses (downloadAsTxt toLocaleString pg) = expenses pg"
  by (simp add: downloadAsExcel_def downloadAsTxt_def Let_def)

text \<open>
  Claim C10, as stated, fails: the text depends on one thing besides the seven numbers,
  the locale of the host, which \<^verbatim>\<open>toLocaleString()\<close> formats the amounts with. The same
  state yields \<^verbatim>\<open>$5,000\<close> under \<open>en_US\<close> and \<^verbatim>\<open>$5.000\<close> under \<open>de_DE\<close>.
\<close>

theorem text_export_locale_counterexample:
  "budgetText en_US initial_budget \<noteq> budgetText de_DE initial_budget"
  by code_simp

text \<open>
  Claim C10, amended. Under one host locale the text of the export is a function of the
  income and the expenses alone: two states with the same income and the same expenses
  yield the same text character for character, whatever else differs between them.
\<close>

theorem text_export_function_of_state:
  fixes s :: "'a budget_scheme" and s' :: "'b budget_scheme"
  assumes "income s = income s'" and "expenses s = expenses s'"
  shows "budgetText toLocaleString s = budgetText toLocaleString s'"
proof -
  have t: "totalExpenses s = totalExpenses s'"
    using assms by (simp add: totalExpenses_def)
  then have v: "savings s = savings s'"
    using assms by (simp add: savings_def)
  then have p: "savingsPercentage s = savingsPercentage s'"
    using assms by (simp add: savingsPercentage_def)
  then have r: "recommendation s = recommendation s'"
    by (simp add: recommendation_def)
  show ?thesis
    unfolding budgetText_def assms t v p r ..
qed

text \<open>Two pages that differ in their toasts and downloads, and agree on the state.\<close>

theorem text_export_function_of_state_witness:
  "income initial_page = income (downloadAsExcel initial_page)
   \<and> expenses initial_page = expenses (downloadAsExcel initial_page)
   \<and> toasts initial_page \<noteq> toasts (downloadAsExcel initial_page)
   \<and> budgetText en_US initial_page = budgetText en_US (downloadAsExcel initial_page)"
proof -
  have a: "income initial_page = income (downloadAsExcel initial_page)"
    by (simp add: downloadAsExcel_def Let_def)
  have b: "expenses initial_page = expenses (downloadAsExcel initial_page)"
    by (simp add: downloadAsExcel_def Let_def)
  have c: "toasts initial_page \<noteq> toasts (downloadAsExcel initial_page)"
    by (simp add: downloadAsExcel_def Let_def initial_page_def page_of_def)
  show ?thesis
    using text_export_function_of_state [OF a b, of en_US] a b c by simp
qed

end
